theory Spec2Isabelle
  imports Main "HOL-Library.Sublist"
begin

section \<open>Data model of the task allocation bot\<close>

text \<open>
  The embedding follows \<^verbatim>\<open>src/task_bot_v2.py\<close> (class \<^verbatim>\<open>TaskBot\<close>), and
  \<^verbatim>\<open>src/task_bot.py\<close> for the single-winner selection. Discord snowflakes are Python
  ints; a \<^verbatim>\<open>datetime\<close> is a point of a total order with microsecond resolution, read
  here as an integer number of microseconds.
\<close>

type_synonym user_id = int
type_synonym message_id = int
type_synonym timestamp = int

text \<open>
  The exceptions the code distinguishes in its \<^verbatim>\<open>except\<close> clauses.
  \<^verbatim>\<open>discord.Forbidden\<close> and \<^verbatim>\<open>discord.NotFound\<close> are subclasses of
  \<^verbatim>\<open>discord.HTTPException\<close>; \<open>HTTPException\<close> below is any other HTTP failure and
  \<open>Other_exception\<close> any \<^verbatim>\<open>Exception\<close> outside that hierarchy.
\<close>

datatype exn = Forbidden | NotFound | HTTPException | Other_exception

fun is_HTTPException :: "exn \<Rightarrow> bool" where
  "is_HTTPException Forbidden = True"
| "is_HTTPException NotFound = True"
| "is_HTTPException HTTPException = True"
| "is_HTTPException Other_exception = False"

record user =
  uid :: user_id
  is_bot :: bool
  uname :: string

text \<open>The reaction emoji of the source (white heavy check mark, U+2705) as its UTF-8 bytes.\<close>

definition CHECKMARK :: string where
  "CHECKMARK = [CHR 0xE2, CHR 0x9C, CHR 0x85]"

text \<open>\<^verbatim>\<open>TASK_ROLE_NAME = os.getenv('TASK_ROLE_NAME', 'TaskHolder')\<close>: the default.\<close>

definition TASK_ROLE_NAME :: string where
  "TASK_ROLE_NAME = ''TaskHolder''"

text \<open>
  The attributes of \<^verbatim>\<open>TaskBot\<close> that the allocation round reads or writes. A channel
  attribute is \<open>True\<close> when it is set (not \<^verbatim>\<open>None\<close>), \<open>gc\<close> when the Sheets client is
  initialised, \<open>loop_running\<close> tells whether \<^verbatim>\<open>task_allocation_loop\<close> is scheduled.
\<close>

record bot =
  configured :: bool
  announce_channel :: bool
  logs_channel :: bool
  current_task :: int
  total_tasks :: int
  winners_per_task :: int
  gc :: bool
  sheet_url :: string
  reaction_timestamps :: "message_id \<rightharpoonup> (user_id \<rightharpoonup> timestamp)"
  reaction_time :: int
  interval_minutes :: int
  role_removal_hours :: int
  loop_running :: bool

section \<open>Message contents\<close>

text \<open>
  The f-strings of the embeds, one constructor per template with the interpolated
  values as arguments.
\<close>

datatype embed_text =
    Assigned_text int
  | Sheet_link_text string
  | Instructions_text
  | Task_details_text int string int
  | Inaccessible_text user_id

datatype field_name = Task_assigned_name | Sheet_link_name | Instructions_name | Task_details_name

datatype embed_title = Congratulations_title | Inaccessible_title

datatype embed_footer = Good_luck_footer | Enable_dms_footer

record embed =
  e_title :: embed_title
  e_description :: embed_text
  e_fields :: "(field_name \<times> embed_text) list"
  e_footer :: embed_footer

datatype post =
    All_complete
  | Task_available int int
  | Role_ping
  | Member_not_found user_id
  | Need_manage_roles
  | Role_too_low
  | Role_not_confirmed user_id
  | Cannot_assign user_id
  | Lacks_permission
  | Error_assigning exn
  | Unexpected_error exn
  | Task_assigned user_id int
  | Tasks_assigned "(user_id \<times> int) list"
  | Assignment_failed
  | No_claims int int
  | Dm_fallback embed

datatype log_msg =
    All_completed_log
  | Ping_failed_log exn
  | Ping_role_missing_log
  | Task_created_log int int
  | Role_given_log user_id int
  | Dm_sent_log user_id int
  | Dm_inaccessible_log user_id
  | No_claims_log int int

datatype log_line =
    Sheets_not_configured
  | Row_missing int
  | Sheet_updated int string
  | Attempt_failed nat exn
  | Gave_up
  | Dm_ok user_id int
  | Dm_refused user_id exn
  | Dm_error exn
  | Message_not_found
  | Fetch_failed_line exn
  | Allocation_error exn

text \<open>
  The effects a round has on the outside world, in the order they happen. \<open>Post\<close> is
  a delivered \<^verbatim>\<open>announce_channel.send\<close>, \<open>Post_failed\<close> one that raised;
  \<open>Send_log\<close> is \<^verbatim>\<open>send_log\<close>, \<open>Logger\<close> a line of the Python logger the claims
  speak about.
\<close>

datatype effect =
    Post post
  | Post_failed post exn
  | Direct_message user_id embed
  | Direct_message_failed user_id embed exn
  | Send_log log_msg
  | Logger log_line
  | Sleep int
  | Update_cell int int string
  | Add_reaction
  | Add_roles user_id int
  | Schedule_role_removal user_id int
  | Loop_stop

section \<open>Claim tracking: \<^verbatim>\<open>on_reaction_add\<close>\<close>

definition on_reaction_add :: "bot \<Rightarrow> user \<Rightarrow> string \<Rightarrow> message_id \<Rightarrow> timestamp \<Rightarrow> bot" where
  "on_reaction_add b u emoji mid now =
     (if is_bot u \<or> emoji \<noteq> CHECKMARK then b
      else
        let rt1 = (if reaction_timestamps b mid = None
                   then (reaction_timestamps b)(mid \<mapsto> Map.empty)
                   else reaction_timestamps b)
        in case rt1 mid of
             None \<Rightarrow> b\<lparr>reaction_timestamps := rt1\<rparr>
           | Some bucket \<Rightarrow>
               if bucket (uid u) = None
               then b\<lparr>reaction_timestamps := rt1(mid \<mapsto> bucket(uid u \<mapsto> now))\<rparr>
               else b\<lparr>reaction_timestamps := rt1\<rparr>)"

text \<open>
  \<^verbatim>\<open>message.id in self.reaction_timestamps and
  reactor.id in self.reaction_timestamps[message.id]\<close>, then the stored value.
\<close>

definition recorded_timestamp ::
  "(message_id \<rightharpoonup> (user_id \<rightharpoonup> timestamp)) \<Rightarrow> message_id \<Rightarrow> user_id \<Rightarrow> timestamp option" where
  "recorded_timestamp rt mid u = (case rt mid of None \<Rightarrow> None | Some bucket \<Rightarrow> bucket u)"

section \<open>Winner selection\<close>

text \<open>
  \<^verbatim>\<open>task_bot_v2.py\<close>, lines 670-686. The loop pairs every reactor with its recorded
  timestamp, or with \<^verbatim>\<open>datetime.now()\<close> when none is recorded; \<open>clock i\<close> is what the
  clock reads when the loop reaches the reactor at position \<open>i\<close>. \<^verbatim>\<open>list.sort\<close> is
  stable, as \<open>sort_key\<close> is.
\<close>

definition stamp_reactors ::
  "(message_id \<rightharpoonup> (user_id \<rightharpoonup> timestamp)) \<Rightarrow> message_id \<Rightarrow> (nat \<Rightarrow> timestamp) \<Rightarrow> user list
     \<Rightarrow> (user \<times> timestamp) list" where
  "stamp_reactors rt mid clock reactors =
     map (\<lambda>(i, reactor).
            (reactor, case recorded_timestamp rt mid (uid reactor) of
                        Some t \<Rightarrow> t
                      | None \<Rightarrow> clock i))
         (enumerate 0 reactors)"

text \<open>Python's \<^verbatim>\<open>xs[:n]\<close>: a negative \<open>n\<close> counts from the end.\<close>

definition slice_to :: "int \<Rightarrow> 'a list \<Rightarrow> 'a list" where
  "slice_to n xs = (if 0 \<le> n then take (nat n) xs else take (nat (int (length xs) + n)) xs)"

definition sorted_reactors ::
  "(message_id \<rightharpoonup> (user_id \<rightharpoonup> timestamp)) \<Rightarrow> message_id \<Rightarrow> (nat \<Rightarrow> timestamp) \<Rightarrow> user list
     \<Rightarrow> (user \<times> timestamp) list" where
  "sorted_reactors rt mid clock reactors = sort_key snd (stamp_reactors rt mid clock reactors)"

definition select_winners ::
  "(message_id \<rightharpoonup> (user_id \<rightharpoonup> timestamp)) \<Rightarrow> message_id \<Rightarrow> (nat \<Rightarrow> timestamp) \<Rightarrow> int
     \<Rightarrow> user list \<Rightarrow> user list" where
  "select_winners rt mid clock tasks_this_round reactors =
     map fst (slice_to tasks_this_round (sorted_reactors rt mid clock reactors))"

text \<open>
  \<^verbatim>\<open>task_bot.py\<close>, lines 648-662: the single-winner version. The loop state is
  \<open>(winner, earliest_time)\<close>; the source runs it only under \<^verbatim>\<open>if reactors:\<close>, so an
  empty list has no winner.
\<close>

definition earliest_step ::
  "(message_id \<rightharpoonup> (user_id \<rightharpoonup> timestamp)) \<Rightarrow> message_id \<Rightarrow> user
     \<Rightarrow> user \<times> timestamp option \<Rightarrow> user \<Rightarrow> user \<times> timestamp option" where
  "earliest_step rt mid first st reactor =
     (let st1 = (case recorded_timestamp rt mid (uid reactor) of
                   None \<Rightarrow> st
                 | Some t \<Rightarrow>
                     (case snd st of
                        None \<Rightarrow> (reactor, Some t)
                      | Some earliest \<Rightarrow> if t < earliest then (reactor, Some t) else st))
      in if snd st1 = None then (first, None) else st1)"

definition find_first_reactor ::
  "(message_id \<rightharpoonup> (user_id \<rightharpoonup> timestamp)) \<Rightarrow> message_id \<Rightarrow> user list \<Rightarrow> user option" where
  "find_first_reactor rt mid reactors =
     (case reactors of
        [] \<Rightarrow> None
      | first # _ \<Rightarrow> Some (fst (foldl (earliest_step rt mid first) (first, None) reactors)))"

section \<open>The ledger: \<^verbatim>\<open>extract_sheet_id\<close> and \<^verbatim>\<open>write_to_sheet\<close>\<close>

definition sheet_id_char :: "char \<Rightarrow> bool" where
  "sheet_id_char c =
     (let k = (of_char c :: nat)
      in (65 \<le> k \<and> k \<le> 90) \<or> (97 \<le> k \<and> k \<le> 122) \<or> (48 \<le> k \<and> k \<le> 57)
         \<or> c = CHR ''-'' \<or> c = CHR ''_'')"

text \<open>
  \<^verbatim>\<open>re.search(r'/d/([A-Za-z0-9\-_]+)', url)\<close>: the leftmost position where \<^verbatim>\<open>/d/\<close>
  is followed by at least one character of the class; the group is the longest run.
\<close>

fun extract_sheet_id :: "string \<Rightarrow> string option" where
  "extract_sheet_id [] = None"
| "extract_sheet_id (c # cs) =
     (if take 3 (c # cs) = ''/d/'' \<and> takeWhile sheet_id_char (drop 3 (c # cs)) \<noteq> []
      then Some (takeWhile sheet_id_char (drop 3 (c # cs)))
      else extract_sheet_id cs)"

text \<open>
  What the spreadsheet service answers to one attempt: opening the sheet, choosing the
  worksheet or reading its rows raises, or the worksheet has \<open>n\<close> rows and
  \<^verbatim>\<open>update_cell\<close> then succeeds (\<open>None\<close>) or raises.
\<close>

datatype sheet_reply = Sheet_raises exn | Sheet_rows nat "exn option"

text \<open>
  The body of the \<^verbatim>\<open>try\<close> of one attempt. \<open>Inr ()\<close> is a \<^verbatim>\<open>return\<close> out of
  \<^verbatim>\<open>write_to_sheet\<close>, \<open>Inl e\<close> an exception reaching the \<^verbatim>\<open>except\<close> clause.
\<close>

definition sheet_attempt :: "bot \<Rightarrow> sheet_reply \<Rightarrow> int \<Rightarrow> string \<Rightarrow> effect list \<times> (exn + unit)" where
  "sheet_attempt b reply task_number winner_name =
     (case extract_sheet_id (sheet_url b) of
        None \<Rightarrow> ([], Inr ())
      | Some sheet_id \<Rightarrow>
          (case reply of
             Sheet_raises e \<Rightarrow> ([], Inl e)
           | Sheet_rows n upd \<Rightarrow>
               if task_number + 1 > int n
               then ([Logger (Row_missing task_number)], Inr ())
               else (case upd of
                       Some e \<Rightarrow> ([], Inl e)
                     | None \<Rightarrow>
                         ([Update_cell (task_number + 1) 4 winner_name,
                           Logger (Sheet_updated task_number winner_name)], Inr ()))))"

text \<open>
  \<^verbatim>\<open>for attempt in range(3)\<close> over the attempts still to run. The result is how
  \<^verbatim>\<open>write_to_sheet\<close> ends: \<open>Inr ()\<close> when it returns, \<open>Inl e\<close> if an exception left it.
\<close>

fun write_attempts ::
  "bot \<Rightarrow> (nat \<Rightarrow> sheet_reply) \<Rightarrow> int \<Rightarrow> string \<Rightarrow> nat list \<Rightarrow> effect list \<times> (exn + unit)" where
  "write_attempts b replies task_number winner_name [] = ([], Inr ())"
| "write_attempts b replies task_number winner_name (attempt # rest) =
     (case sheet_attempt b (replies attempt) task_number winner_name of
        (fx, Inr _) \<Rightarrow> (fx, Inr ())
      | (fx, Inl e) \<Rightarrow>
          (let handler = Logger (Attempt_failed (attempt + 1) e) #
                           (if attempt < 2 then [Sleep (2 ^ attempt)] else [Logger Gave_up]);
               (fx', r) = write_attempts b replies task_number winner_name rest
           in (fx @ handler @ fx', r)))"

definition write_to_sheet ::
  "bot \<Rightarrow> (nat \<Rightarrow> sheet_reply) \<Rightarrow> int \<Rightarrow> string \<Rightarrow> effect list \<times> (exn + unit)" where
  "write_to_sheet b replies task_number winner_name =
     (if \<not> gc b \<or> sheet_url b = []
      then ([Logger Sheets_not_configured], Inr ())
      else write_attempts b replies task_number winner_name [0..<3])"

section \<open>Notification: \<^verbatim>\<open>send_log\<close> and \<^verbatim>\<open>dm_winner\<close>\<close>

text \<open>
  \<^verbatim>\<open>send_log\<close> posts to the logs channel when one is set and catches every exception
  of that post, so it never raises.
\<close>

definition send_log :: "bot \<Rightarrow> log_msg \<Rightarrow> effect list" where
  "send_log b m = (if logs_channel b then [Send_log m] else [])"

text \<open>One \<^verbatim>\<open>await self.announce_channel.send(...)\<close> and what it answered.\<close>

definition send_post :: "post \<Rightarrow> exn option \<Rightarrow> effect list" where
  "send_post p reply = [case reply of None \<Rightarrow> Post p | Some e \<Rightarrow> Post_failed p e]"

text \<open>
  What Discord and the spreadsheet service answer while one winner is processed: one
  field per external call of the loop body (lines 694-767) and of the methods it calls.
  \<open>notice_reply\<close> answers the error notice posted inside the loop body,
  \<open>handler_reply\<close> the post of the \<^verbatim>\<open>except\<close> clause that handles an exception.
\<close>

record winner_env =
  guild_present :: bool
  member_cached :: bool
  fetch_member_reply :: "exn option"
  in_guild_members :: bool
  role_exists :: bool
  create_role_reply :: "exn option"
  manage_roles :: bool
  bot_top_position :: int
  role_position :: int
  add_roles_reply :: "exn option"
  dm_send_reply :: "exn option"
  fallback_send_reply :: "exn option"
  sheet_replies :: "nat \<Rightarrow> sheet_reply"
  role_in_member_roles :: bool
  notice_reply :: "exn option"
  handler_reply :: "exn option"

definition dm_embed :: "bot \<Rightarrow> int \<Rightarrow> embed" where
  "dm_embed b task_number =
     \<lparr>e_title = Congratulations_title,
      e_description = Assigned_text task_number,
      e_fields = [(Sheet_link_name, Sheet_link_text (sheet_url b)),
                  (Instructions_name, Instructions_text),
                  (Task_details_name,
                   Task_details_text task_number TASK_ROLE_NAME (role_removal_hours b))],
      e_footer = Good_luck_footer\<rparr>"

definition channel_embed :: "bot \<Rightarrow> user \<Rightarrow> int \<Rightarrow> embed" where
  "channel_embed b winner_member task_number =
     \<lparr>e_title = Inaccessible_title,
      e_description = Inaccessible_text (uid winner_member),
      e_fields = [(Task_assigned_name, Assigned_text task_number),
                  (Sheet_link_name, Sheet_link_text (sheet_url b)),
                  (Instructions_name, Instructions_text),
                  (Task_details_name,
                   Task_details_text task_number TASK_ROLE_NAME (role_removal_hours b))],
      e_footer = Enable_dms_footer\<rparr>"

text \<open>
  \<^verbatim>\<open>dm_winner\<close> returns \<^verbatim>\<open>True\<close> when the direct message went out. The inner
  \<^verbatim>\<open>except (discord.Forbidden, discord.HTTPException)\<close> posts in the announcement
  channel; any other exception, and an exception of that post, reaches the outer
  \<^verbatim>\<open>except Exception\<close>, which logs and returns \<^verbatim>\<open>False\<close>.
\<close>

definition dm_winner :: "bot \<Rightarrow> winner_env \<Rightarrow> user \<Rightarrow> int \<Rightarrow> effect list \<times> bool" where
  "dm_winner b e winner_member task_number =
     (case dm_send_reply e of
        None \<Rightarrow>
          ([Direct_message (uid winner_member) (dm_embed b task_number),
            Logger (Dm_ok (uid winner_member) task_number)]
           @ send_log b (Dm_sent_log (uid winner_member) task_number), True)
      | Some x \<Rightarrow>
          if is_HTTPException x then
            (let fx = [Direct_message_failed (uid winner_member) (dm_embed b task_number) x,
                       Logger (Dm_refused (uid winner_member) x)]
             in if announce_channel b then
                  (case fallback_send_reply e of
                     None \<Rightarrow>
                       (fx @ [Post (Dm_fallback (channel_embed b winner_member task_number))]
                        @ send_log b (Dm_inaccessible_log (uid winner_member)), False)
                   | Some y \<Rightarrow>
                       (fx @ [Post_failed (Dm_fallback (channel_embed b winner_member task_number)) y,
                              Logger (Dm_error y)], False))
                else (fx @ send_log b (Dm_inaccessible_log (uid winner_member)), False))
          else ([Direct_message_failed (uid winner_member) (dm_embed b task_number) x,
                 Logger (Dm_error x)], False))"

section \<open>Processing the winners\<close>

text \<open>
  \<^verbatim>\<open>get_member_safely\<close>, called as
  \<^verbatim>\<open>await self.get_member_safely(message.guild, winner.id) if message.guild else None\<close>:
  \<open>Inr True\<close> when a member came back, \<open>Inr False\<close> for \<^verbatim>\<open>None\<close>.
\<close>

definition get_member_safely :: "winner_env \<Rightarrow> exn + bool" where
  "get_member_safely e =
     (if \<not> guild_present e then Inr False
      else if member_cached e then Inr True
      else (case fetch_member_reply e of
              None \<Rightarrow> Inr True
            | Some x \<Rightarrow> if is_HTTPException x then Inr False else Inl x))"

definition get_or_create_role :: "winner_env \<Rightarrow> exn + unit" where
  "get_or_create_role e =
     (if role_exists e then Inr ()
      else (case create_role_reply e of None \<Rightarrow> Inr () | Some x \<Rightarrow> Inl x))"

text \<open>
  The body of the \<^verbatim>\<open>try\<close> of lines 707-757. The result is the effects, whether the
  winner was appended to \<^verbatim>\<open>winners_assigned\<close>, and the exception that left the body,
  if any (\<^verbatim>\<open>continue\<close> and falling off the end are both \<open>None\<close>).
\<close>

definition try_assign :: "bot \<Rightarrow> winner_env \<Rightarrow> user \<Rightarrow> int \<Rightarrow> effect list \<times> bool \<times> exn option" where
  "try_assign b e winner current_task_num =
     (if in_guild_members e then
        (case get_or_create_role e of
           Inl x \<Rightarrow> ([], False, Some x)
         | Inr _ \<Rightarrow>
             if \<not> manage_roles e
             then (send_post Need_manage_roles (notice_reply e), False, notice_reply e)
             else if bot_top_position e \<le> role_position e
             then (send_post Role_too_low (notice_reply e), False, notice_reply e)
             else
               (case add_roles_reply e of
                  Some x \<Rightarrow> ([], False, Some x)
                | None \<Rightarrow>
                    (let fx1 = [Add_roles (uid winner) current_task_num,
                                Schedule_role_removal (uid winner) (role_removal_hours b)]
                               @ send_log b (Role_given_log (uid winner) current_task_num);
                         fx2 = fst (dm_winner b e winner current_task_num);
                         wr = write_to_sheet b (sheet_replies e) current_task_num (uname winner);
                         fx = fx1 @ fx2 @ fst wr
                     in case snd wr of
                          Inl x \<Rightarrow> (fx, False, Some x)
                        | Inr _ \<Rightarrow>
                            if role_in_member_roles e then (fx, True, None)
                            else (fx @ send_post (Role_not_confirmed (uid winner)) (notice_reply e),
                                  True, notice_reply e))))
      else (send_post (Cannot_assign (uid winner)) (notice_reply e), False, notice_reply e))"

text \<open>The three \<^verbatim>\<open>except\<close> clauses of lines 759-767, in their order.\<close>

definition handler_post :: "exn \<Rightarrow> post" where
  "handler_post x =
     (if x = Forbidden then Lacks_permission
      else if is_HTTPException x then Error_assigning x
      else Unexpected_error x)"

text \<open>
  One iteration of \<^verbatim>\<open>for i, winner in enumerate(winners)\<close>: the effects, the pair
  appended to \<^verbatim>\<open>winners_assigned\<close> if any, and the exception that leaves the loop (and
  reaches the \<^verbatim>\<open>except\<close> of the whole round) if any.
\<close>

definition process_winner ::
  "bot \<Rightarrow> winner_env \<Rightarrow> int \<Rightarrow> nat \<Rightarrow> user \<Rightarrow> effect list \<times> (user_id \<times> int) option \<times> exn option" where
  "process_winner b e starting_task_num i winner =
     (let current_task_num = starting_task_num + int i
      in case get_member_safely e of
           Inl x \<Rightarrow> ([], None, Some x)
         | Inr found \<Rightarrow>
             if \<not> found
             then (send_post (Member_not_found (uid winner)) (notice_reply e), None, notice_reply e)
             else
               (case try_assign b e winner current_task_num of
                  (fx, appended, raised) \<Rightarrow>
                    (let asg = (if appended then Some (uid winner, current_task_num) else None)
                     in case raised of
                          None \<Rightarrow> (fx, asg, None)
                        | Some x \<Rightarrow>
                            (fx @ send_post (handler_post x) (handler_reply e), asg,
                             handler_reply e))))"

fun process_winners ::
  "bot \<Rightarrow> (nat \<Rightarrow> winner_env) \<Rightarrow> int \<Rightarrow> nat \<Rightarrow> user list
     \<Rightarrow> effect list \<times> (user_id \<times> int) list \<times> exn option" where
  "process_winners b envs starting_task_num i [] = ([], [], None)"
| "process_winners b envs starting_task_num i (winner # rest) =
     (case process_winner b (envs i) starting_task_num i winner of
        (fx, asg, esc) \<Rightarrow>
          (case esc of
             Some x \<Rightarrow> (fx, (case asg of None \<Rightarrow> [] | Some a \<Rightarrow> [a]), Some x)
           | None \<Rightarrow>
               (case process_winners b envs starting_task_num (Suc i) rest of
                  (fx', asgs, esc') \<Rightarrow>
                    (fx @ fx', (case asg of None \<Rightarrow> [] | Some a \<Rightarrow> [a]) @ asgs, esc'))))"

section \<open>One allocation round: \<^verbatim>\<open>task_allocation_loop_impl\<close>\<close>

text \<open>
  A reaction of the fetched announcement. \<open>r_users\<close> is what iterating
  \<^verbatim>\<open>checkmark_reaction.users()\<close> does: the users it yields, in order, and the
  exception that ends the iteration, if one does.
\<close>

record reaction =
  r_emoji :: string
  r_users :: "user list \<times> exn option"

text \<open>
  What the outside world does during one round. \<open>window_reactions\<close> are the calls of
  \<^verbatim>\<open>on_reaction_add\<close> that the event loop makes while the round sleeps, each with the
  clock reading of its \<^verbatim>\<open>datetime.now()\<close>; \<open>clock\<close> is the clock during resolution;
  \<open>summary_reply\<close> answers the post that closes the round.
\<close>

record world =
  complete_reply :: "exn option"
  announce_reply :: "exn + message_id"
  add_reaction_reply :: "exn option"
  ping_role_found :: bool
  ping_reply :: "exn option"
  window_reactions :: "(user \<times> string \<times> message_id \<times> timestamp) list"
  fetch_reply :: "exn + reaction list"
  clock :: "nat \<Rightarrow> timestamp"
  winner_envs :: "nat \<Rightarrow> winner_env"
  summary_reply :: "exn option"

text \<open>
  How the round ended. \<open>Error_logged\<close> is the \<^verbatim>\<open>except Exception\<close> of the round,
  \<open>Uncaught\<close> an exception raised before its \<^verbatim>\<open>try\<close>.
\<close>

datatype exit =
    Not_ready | All_done | Aborted | No_checkmark | Dispatched | Empty
  | Error_logged exn | Uncaught exn

text \<open>
  The result of a round: the bot afterwards, the effects, the exit, and the values
  of the locals \<^verbatim>\<open>reactors\<close>, \<^verbatim>\<open>winners\<close> and \<^verbatim>\<open>winners_assigned\<close> when the round
  ended. \<open>r_reactors\<close> is \<open>None\<close> when the round ended before \<^verbatim>\<open>reactors = []\<close>
  (line 661) ran; after that line it is the list as far as it was filled.
\<close>

record result =
  r_bot :: bot
  r_effects :: "effect list"
  r_exit :: exit
  r_reactors :: "user list option"
  r_winners :: "user list"
  r_assigned :: "(user_id \<times> int) list"

text \<open>\<^verbatim>\<open>if message.id in self.reaction_timestamps: del self.reaction_timestamps[message.id]\<close>\<close>

definition discard :: "bot \<Rightarrow> message_id \<Rightarrow> bot" where
  "discard b mid =
     (if reaction_timestamps b mid \<noteq> None
      then b\<lparr>reaction_timestamps := (reaction_timestamps b)(mid := None)\<rparr>
      else b)"

text \<open>The \<^verbatim>\<open>except Exception\<close> of the round: it logs, and the function returns.\<close>

definition caught ::
  "bot \<Rightarrow> effect list \<Rightarrow> exn \<Rightarrow> user list option \<Rightarrow> user list \<Rightarrow> (user_id \<times> int) list \<Rightarrow> result" where
  "caught b fx x reactors winners assigned =
     \<lparr>r_bot = b, r_effects = fx @ [Logger (Allocation_error x)], r_exit = Error_logged x,
      r_reactors = reactors, r_winners = winners, r_assigned = assigned\<rparr>"

fun summary_post :: "(user_id \<times> int) list \<Rightarrow> post" where
  "summary_post [] = Assignment_failed"
| "summary_post [(winner_member, task_num)] = Task_assigned winner_member task_num"
| "summary_post winners_assigned = Tasks_assigned winners_assigned"

text \<open>Lines 669-802: the branch \<^verbatim>\<open>if reactors:\<close>, then the cleanup.\<close>

definition dispatch ::
  "world \<Rightarrow> bot \<Rightarrow> int \<Rightarrow> int \<Rightarrow> message_id \<Rightarrow> effect list \<Rightarrow> user list \<Rightarrow> result" where
  "dispatch w b starting_task_num tasks_this_round mid fx reactors =
     (let winners = select_winners (reaction_timestamps b) mid (clock w) tasks_this_round reactors
      in case process_winners b (winner_envs w) starting_task_num 0 winners of
           (wfx, winners_assigned, esc) \<Rightarrow>
             (case esc of
                Some x \<Rightarrow> caught b (fx @ wfx) x (Some reactors) winners winners_assigned
              | None \<Rightarrow>
                  (let b1 = (if winners_assigned \<noteq> []
                             then b\<lparr>current_task := current_task b + 1\<rparr> else b);
                       summary = summary_post winners_assigned
                   in case summary_reply w of
                        Some x \<Rightarrow>
                          caught b1 (fx @ wfx @ [Post_failed summary x]) x
                            (Some reactors) winners winners_assigned
                      | None \<Rightarrow>
                          \<lparr>r_bot = discard b1 mid, r_effects = fx @ wfx @ [Post summary],
                           r_exit = Dispatched, r_reactors = Some reactors,
                           r_winners = winners, r_assigned = winners_assigned\<rparr>)))"

text \<open>Lines 804-821: the branch \<^verbatim>\<open>else\<close> (no reactors), then the cleanup.\<close>

definition no_claims :: "world \<Rightarrow> bot \<Rightarrow> int \<Rightarrow> int \<Rightarrow> message_id \<Rightarrow> effect list \<Rightarrow> result" where
  "no_claims w b starting_task_num tasks_this_round mid fx =
     (case summary_reply w of
        Some x \<Rightarrow>
          caught b (fx @ [Post_failed (No_claims starting_task_num tasks_this_round) x]) x
            (Some []) [] []
      | None \<Rightarrow>
          \<lparr>r_bot = discard b mid,
           r_effects = fx @ [Post (No_claims starting_task_num tasks_this_round)]
                       @ send_log b (No_claims_log starting_task_num tasks_this_round),
           r_exit = Empty, r_reactors = Some [], r_winners = [], r_assigned = []\<rparr>)"

text \<open>Lines 636-668: fetching the announcement again and enumerating its reactors.\<close>

definition resolve ::
  "world \<Rightarrow> bot \<Rightarrow> int \<Rightarrow> int \<Rightarrow> message_id \<Rightarrow> effect list \<Rightarrow> result" where
  "resolve w b starting_task_num tasks_this_round mid fx =
     (case fetch_reply w of
        Inl x \<Rightarrow>
          if is_HTTPException x
          then \<lparr>r_bot = discard b mid,
                r_effects = fx @ [Logger (if x = NotFound then Message_not_found
                                          else Fetch_failed_line x)],
                r_exit = Aborted, r_reactors = None, r_winners = [], r_assigned = []\<rparr>
          else caught b fx x None [] []
      | Inr reactions \<Rightarrow>
          (case find (\<lambda>r. r_emoji r = CHECKMARK) reactions of
             None \<Rightarrow>
               \<lparr>r_bot = b, r_effects = fx, r_exit = No_checkmark,
                r_reactors = None, r_winners = [], r_assigned = []\<rparr>
           | Some checkmark_reaction \<Rightarrow>
               (case r_users checkmark_reaction of
                  (users, stop) \<Rightarrow>
                    (let reactors = filter (\<lambda>u. \<not> is_bot u) users
                     in case stop of
                          Some x \<Rightarrow> caught b fx x (Some reactors) [] []
                        | None \<Rightarrow>
                            if reactors \<noteq> []
                            then dispatch w b starting_task_num tasks_this_round mid fx reactors
                            else no_claims w b starting_task_num tasks_this_round mid fx))))"

text \<open>Lines 614-623: the role ping; its exceptions are caught on the spot.\<close>

definition ping_effects :: "world \<Rightarrow> bot \<Rightarrow> effect list" where
  "ping_effects w b =
     (if ping_role_found w then
        (case ping_reply w of
           None \<Rightarrow> [Post Role_ping]
         | Some x \<Rightarrow> Post_failed Role_ping x # send_log b (Ping_failed_log x))
      else send_log b Ping_role_missing_log)"

text \<open>\<^verbatim>\<open>self.reaction_timestamps[message.id] = {}\<close> (line 611).\<close>

definition open_bucket :: "bot \<Rightarrow> message_id \<Rightarrow> bot" where
  "open_bucket b mid = b\<lparr>reaction_timestamps := (reaction_timestamps b)(mid \<mapsto> Map.empty)\<rparr>"

text \<open>
  \<^verbatim>\<open>await asyncio.sleep(self.reaction_time)\<close> (line 634): the reactions that arrive
  while the round sleeps go through \<^verbatim>\<open>on_reaction_add\<close> one by one.
\<close>

definition collect_window :: "world \<Rightarrow> bot \<Rightarrow> bot" where
  "collect_window w b =
     foldl (\<lambda>s (u, emoji, m, now). on_reaction_add s u emoji m now) b (window_reactions w)"

text \<open>Lines 581-634: the announcement, the fresh bucket, the window.\<close>

definition open_round :: "world \<Rightarrow> bot \<Rightarrow> result" where
  "open_round w b =
     (let starting_task_num = current_task b;
          tasks_this_round = winners_per_task b
      in case announce_reply w of
           Inl x \<Rightarrow>
             caught b [Post_failed (Task_available starting_task_num tasks_this_round) x] x
               None [] []
         | Inr mid \<Rightarrow>
             (let b1 = open_bucket b mid;
                  fx1 = [Post (Task_available starting_task_num tasks_this_round)]
              in case add_reaction_reply w of
                   Some x \<Rightarrow> caught b1 fx1 x None [] []
                 | None \<Rightarrow>
                     (let fx2 = fx1 @ [Add_reaction] @ ping_effects w b1
                                @ send_log b1 (Task_created_log starting_task_num tasks_this_round)
                                @ [Sleep (reaction_time b1)];
                          b2 = collect_window w b1
                      in resolve w b2 starting_task_num tasks_this_round mid fx2)))"

definition task_allocation_loop_impl :: "world \<Rightarrow> bot \<Rightarrow> result" where
  "task_allocation_loop_impl w b =
     (if \<not> configured b \<or> \<not> announce_channel b
      then \<lparr>r_bot = b, r_effects = [], r_exit = Not_ready,
            r_reactors = None, r_winners = [], r_assigned = []\<rparr>
      else if current_task b > total_tasks b
      then (case complete_reply w of
              Some x \<Rightarrow>
                \<lparr>r_bot = b, r_effects = [Post_failed All_complete x], r_exit = Uncaught x,
                 r_reactors = None, r_winners = [], r_assigned = []\<rparr>
            | None \<Rightarrow>
                \<lparr>r_bot = b\<lparr>loop_running := False\<rparr>,
                 r_effects = Post All_complete # send_log b All_completed_log @ [Loop_stop],
                 r_exit = All_done, r_reactors = None, r_winners = [], r_assigned = []\<rparr>)
      else open_round w b)"

section \<open>Reading the effects\<close>

text \<open>The seconds slept, and the numbers of the failed attempts logged, in order.\<close>

fun sleeps :: "effect list \<Rightarrow> int list" where
  "sleeps [] = []"
| "sleeps (Sleep s # fx) = s # sleeps fx"
| "sleeps (_ # fx) = sleeps fx"

fun failed_attempts :: "effect list \<Rightarrow> nat list" where
  "failed_attempts [] = []"
| "failed_attempts (Logger (Attempt_failed k _) # fx) = k # failed_attempts fx"
| "failed_attempts (_ # fx) = failed_attempts fx"

text \<open>The cells written, as (row, column, value).\<close>

fun cell_writes :: "effect list \<Rightarrow> (int \<times> int \<times> string) list" where
  "cell_writes [] = []"
| "cell_writes (Update_cell r c v # fx) = (r, c, v) # cell_writes fx"
| "cell_writes (_ # fx) = cell_writes fx"

text \<open>
  The embeds of the fallback posts that \<^verbatim>\<open>dm_winner\<close> tried to send to the announcement
  channel, delivered or not.
\<close>

fun fallback_sends :: "effect list \<Rightarrow> embed list" where
  "fallback_sends [] = []"
| "fallback_sends (Post (Dm_fallback em) # fx) = em # fallback_sends fx"
| "fallback_sends (Post_failed (Dm_fallback em) _ # fx) = em # fallback_sends fx"
| "fallback_sends (_ # fx) = fallback_sends fx"

text \<open>The embeds of the fallback posts that reached the announcement channel.\<close>

fun fallback_posts :: "effect list \<Rightarrow> embed list" where
  "fallback_posts [] = []"
| "fallback_posts (Post (Dm_fallback em) # fx) = em # fallback_posts fx"
| "fallback_posts (_ # fx) = fallback_posts fx"

text \<open>The task numbers and the sheet links that the texts of an embed mention.\<close>

fun text_task_numbers :: "embed_text \<Rightarrow> int list" where
  "text_task_numbers (Assigned_text n) = [n]"
| "text_task_numbers (Task_details_text n _ _) = [n]"
| "text_task_numbers _ = []"

fun text_sheet_links :: "embed_text \<Rightarrow> string list" where
  "text_sheet_links (Sheet_link_text url) = [url]"
| "text_sheet_links _ = []"

definition embed_task_numbers :: "embed \<Rightarrow> int list" where
  "embed_task_numbers em =
     remdups (concat (map text_task_numbers (e_description em # map snd (e_fields em))))"

definition embed_sheet_links :: "embed \<Rightarrow> string list" where
  "embed_sheet_links em =
     concat (map text_sheet_links (e_description em # map snd (e_fields em)))"

section \<open>Example inputs\<close>

definition alice :: user where
  "alice = \<lparr>uid = 11, is_bot = False, uname = ''alice''\<rparr>"

definition bob :: user where
  "bob = \<lparr>uid = 22, is_bot = False, uname = ''bob''\<rparr>"

definition carol :: user where
  "carol = \<lparr>uid = 33, is_bot = False, uname = ''carol''\<rparr>"

definition taskbot :: user where
  "taskbot = \<lparr>uid = 1, is_bot = True, uname = ''taskbot''\<rparr>"

text \<open>A configured bot at task 1 of 3, two winners per round, no round open.\<close>

definition bot0 :: bot where
  "bot0 = \<lparr>configured = True, announce_channel = True, logs_channel = True,
           current_task = 1, total_tasks = 3, winners_per_task = 2, gc = True,
           sheet_url = ''https://docs.google.com/spreadsheets/d/abc-123_X/edit'',
           reaction_timestamps = Map.empty, reaction_time = 5, interval_minutes = 4,
           role_removal_hours = 12, loop_running = True\<rparr>"

text \<open>Round 100 with three recorded reactions: bob at 3, carol at 5, alice at 7.\<close>

definition tracker0 :: "message_id \<rightharpoonup> (user_id \<rightharpoonup> timestamp)" where
  "tracker0 = [100 \<mapsto> [11 \<mapsto> 7, 22 \<mapsto> 3, 33 \<mapsto> 5]]"

text \<open>A winner for whom every call succeeds, and a sheet of ten rows.\<close>

definition env_ok :: winner_env where
  "env_ok = \<lparr>guild_present = True, member_cached = True, fetch_member_reply = None,
             in_guild_members = True, role_exists = True, create_role_reply = None,
             manage_roles = True, bot_top_position = 5, role_position = 2,
             add_roles_reply = None, dm_send_reply = None, fallback_send_reply = None,
             sheet_replies = (\<lambda>_. Sheet_rows 10 None), role_in_member_roles = True,
             notice_reply = None, handler_reply = None\<rparr>"

text \<open>A winner who has left the server: not cached, and the fetch says \<^verbatim>\<open>NotFound\<close>.\<close>

definition env_gone :: winner_env where
  "env_gone = env_ok\<lparr>member_cached := False, fetch_member_reply := Some NotFound\<rparr>"

text \<open>A winner for whom \<^verbatim>\<open>add_roles\<close> raises \<^verbatim>\<open>discord.Forbidden\<close>.\<close>

definition env_forbidden :: winner_env where
  "env_forbidden = env_ok\<lparr>add_roles_reply := Some Forbidden\<rparr>"

text \<open>A winner whose direct message fails outside the Discord exception hierarchy.\<close>

definition env_dm_error :: winner_env where
  "env_dm_error = env_ok\<lparr>dm_send_reply := Some Other_exception\<rparr>"

text \<open>A winner with closed direct messages.\<close>

definition env_dm_closed :: winner_env where
  "env_dm_closed = env_ok\<lparr>dm_send_reply := Some Forbidden\<rparr>"

text \<open>
  A winner with closed direct messages, when the post to the announcement channel
  fails as well.
\<close>

definition env_dm_lost :: winner_env where
  "env_dm_lost = env_dm_closed\<lparr>fallback_send_reply := Some HTTPException\<rparr>"

text \<open>
  A round announced as message 100: bob reacts at 3, alice at 7, the fetch lists the
  bot, alice and bob, and everything succeeds for both winners.
\<close>

definition world0 :: world where
  "world0 = \<lparr>complete_reply = None, announce_reply = Inr 100, add_reaction_reply = None,
             ping_role_found = True, ping_reply = None,
             window_reactions = [(bob, CHECKMARK, 100, 3), (alice, CHECKMARK, 100, 7)],
             fetch_reply = Inr [\<lparr>r_emoji = CHECKMARK, r_users = ([taskbot, alice, bob], None)\<rparr>],
             clock = (\<lambda>_. 50), winner_envs = (\<lambda>_. env_ok), summary_reply = None\<rparr>"

text \<open>The same round when the first winner has left the server.\<close>

definition world_gap :: world where
  "world_gap = world0\<lparr>winner_envs := (\<lambda>i. if i = 0 then env_gone else env_ok)\<rparr>"

text \<open>The same round when both winners have left the server.\<close>

definition world_gone :: world where
  "world_gone = world0\<lparr>winner_envs := (\<lambda>_. env_gone)\<rparr>"

text \<open>The same round when the bot is forbidden to grant the role.\<close>

definition world_forbidden :: world where
  "world_forbidden = world0\<lparr>winner_envs := (\<lambda>_. env_forbidden)\<rparr>"

text \<open>The same round when all reactions were cleared from the announcement.\<close>

definition world_cleared :: world where
  "world_cleared = world0\<lparr>fetch_reply := Inr []\<rparr>"

text \<open>A round in which only the bot's own reaction is on the announcement.\<close>

definition world_empty :: world where
  "world_empty = world0\<lparr>window_reactions := [],
                        fetch_reply := Inr [\<lparr>r_emoji = CHECKMARK, r_users = ([taskbot], None)\<rparr>]\<rparr>"

text \<open>
  A round with three claimants and two places: bob reacts at 3, carol at 5, alice
  at 7.
\<close>

definition world_three :: world where
  "world_three =
     world0\<lparr>window_reactions := [(bob, CHECKMARK, 100, 3), (carol, CHECKMARK, 100, 5),
                                  (alice, CHECKMARK, 100, 7)],
            fetch_reply := Inr [\<lparr>r_emoji = CHECKMARK,
                                 r_users = ([taskbot, alice, bob, carol], None)\<rparr>]\<rparr>"

text \<open>
  A round in which bob's reaction is recorded at 3 and alice's is on the announcement
  without having been recorded; the clock reads 50 during resolution.
\<close>

definition world_unrec :: world where
  "world_unrec = world0\<lparr>window_reactions := [(bob, CHECKMARK, 100, 3)]\<rparr>"

text \<open>The same round when the clock during resolution reads 3, as it did for bob.\<close>

definition world_tie :: world where
  "world_tie = world_unrec\<lparr>clock := (\<lambda>_. 3)\<rparr>"

text \<open>The same round when the clock was set back and reads 0 during resolution.\<close>

definition world_back :: world where
  "world_back = world_unrec\<lparr>clock := (\<lambda>_. 0)\<rparr>"

section \<open>Claim tracking is idempotent\<close>

lemma on_reaction_add_twice:
  "on_reaction_add (on_reaction_add b u emoji mid t1) u emoji mid t2
   = on_reaction_add b u emoji mid t1"
  by (auto simp: on_reaction_add_def Let_def split: option.splits if_splits)

lemma on_reaction_add_first:
  assumes "\<not> is_bot u" and "emoji = CHECKMARK"
      and "recorded_timestamp (reaction_timestamps b) mid (uid u) = None"
  shows "recorded_timestamp (reaction_timestamps (on_reaction_add b u emoji mid t1)) mid (uid u)
         = Some t1"
  using assms
  by (auto simp: on_reaction_add_def recorded_timestamp_def Let_def split: option.splits if_splits)

lemma on_reaction_add_keeps:
  assumes "recorded_timestamp (reaction_timestamps b) mid v = Some t0"
  shows "recorded_timestamp (reaction_timestamps (on_reaction_add b u emoji mid t1)) mid v = Some t0"
  using assms
  by (auto simp: on_reaction_add_def recorded_timestamp_def Let_def split: option.splits if_splits)

text \<open>
  C6. Registering the same participant a second time in a round changes nothing: the
  bot after the second \<^verbatim>\<open>on_reaction_add\<close> is the bot after the first, and the one
  entry the bucket holds for a participant who was not registered before bears the
  timestamp of the first registration, whatever the clock reads at the second.
\<close>

theorem on_reaction_add_idempotent:
  "on_reaction_add (on_reaction_add b u emoji mid t1) u emoji mid t2
     = on_reaction_add b u emoji mid t1
   \<and> (\<not> is_bot u \<and> emoji = CHECKMARK
        \<and> recorded_timestamp (reaction_timestamps b) mid (uid u) = None
      \<longrightarrow> recorded_timestamp
            (reaction_timestamps (on_reaction_add (on_reaction_add b u emoji mid t1) u emoji mid t2))
            mid (uid u) = Some t1)"
  by (simp add: on_reaction_add_twice on_reaction_add_first)

theorem on_reaction_add_idempotent_witness:
  "\<not> is_bot alice \<and> CHECKMARK = CHECKMARK
   \<and> recorded_timestamp (reaction_timestamps bot0) 100 (uid alice) = None
   \<and> on_reaction_add (on_reaction_add bot0 alice CHECKMARK 100 5) alice CHECKMARK 100 9
       = on_reaction_add bot0 alice CHECKMARK 100 5
   \<and> recorded_timestamp
        (reaction_timestamps (on_reaction_add (on_reaction_add bot0 alice CHECKMARK 100 5)
                                alice CHECKMARK 100 9))
        100 (uid alice) = Some 5"
proof -
  have h: "\<not> is_bot alice \<and> CHECKMARK = CHECKMARK
           \<and> recorded_timestamp (reaction_timestamps bot0) 100 (uid alice) = None"
    by (simp add: alice_def bot0_def recorded_timestamp_def)
  with on_reaction_add_idempotent [of bot0 alice CHECKMARK 100 5 9] show ?thesis
    by blast
qed

section \<open>The ledger write\<close>

lemma write_attempts_returns: "snd (write_attempts b replies n name attempts) = Inr ()"
  by (induction attempts) (auto split: prod.splits sum.splits)

lemma write_to_sheet_returns: "snd (write_to_sheet b replies n name) = Inr ()"
  by (simp add: write_to_sheet_def write_attempts_returns)

lemma range3: "[0..<3] = [0, 1, 2]"
  by (simp add: upt_rec)

lemma sheet_attempt_missing_row:
  assumes "extract_sheet_id (sheet_url b) \<noteq> None" and "reply = Sheet_rows rows upd"
      and "task_number + 1 > int rows"
  shows "sheet_attempt b reply task_number winner_name = ([Logger (Row_missing task_number)], Inr ())"
  using assms by (auto simp: sheet_attempt_def)

text \<open>
  C8. When the attempt that reaches the row check finds that row
  \<open>task_number + 1\<close> is beyond the rows of the sheet, \<^verbatim>\<open>write_to_sheet\<close> logs that and
  returns: no cell is written, nothing is slept, and the attempts that were still to
  run (\<open>rest\<close>) are not made. At the first attempt that is all the call does.
\<close>

theorem write_to_sheet_missing_row:
  assumes "extract_sheet_id (sheet_url b) \<noteq> None"
      and "replies k = Sheet_rows rows upd"
      and "task_number + 1 > int rows"
  shows "write_attempts b replies task_number winner_name (k # rest)
           = ([Logger (Row_missing task_number)], Inr ())
         \<and> (gc b \<and> k = 0 \<longrightarrow>
              write_to_sheet b replies task_number winner_name
                = ([Logger (Row_missing task_number)], Inr ()))"
proof -
  have a: "sheet_attempt b (replies k) task_number winner_name
           = ([Logger (Row_missing task_number)], Inr ())"
    using assms by (rule sheet_attempt_missing_row)
  have url: "sheet_url b \<noteq> []"
    using assms(1) by auto
  from a have 1: "write_attempts b replies task_number winner_name (k # rest)
                  = ([Logger (Row_missing task_number)], Inr ())"
    by simp
  from a url have 2: "gc b \<and> k = 0 \<longrightarrow>
       write_to_sheet b replies task_number winner_name
         = ([Logger (Row_missing task_number)], Inr ())"
    by (auto simp: write_to_sheet_def range3)
  from 1 2 show ?thesis ..
qed

theorem write_to_sheet_missing_row_witness:
  "extract_sheet_id (sheet_url bot0) \<noteq> None
   \<and> (\<lambda>_. Sheet_rows 4 None) (0::nat) = Sheet_rows 4 None
   \<and> (4::int) + 1 > int 4
   \<and> gc bot0
   \<and> write_to_sheet bot0 (\<lambda>_. Sheet_rows 4 None) 4 ''alice''
       = ([Logger (Row_missing 4)], Inr ())"
proof -
  have h1: "extract_sheet_id (sheet_url bot0) \<noteq> None"
    by (simp add: bot0_def sheet_id_char_def)
  have h2: "(\<lambda>_. Sheet_rows 4 None) (0::nat) = Sheet_rows 4 None"
    by simp
  have h3: "(4::int) + 1 > int 4"
    by simp
  have h4: "gc bot0"
    by (simp add: bot0_def)
  from write_to_sheet_missing_row
         [where b = bot0 and replies = "\<lambda>_. Sheet_rows 4 None" and k = 0 and rows = 4
            and upd = None and task_number = 4 and winner_name = "''alice''" and rest = "[]"]
       h1 h3 h4
  show ?thesis
    by simp
qed

section \<open>Winner selection by earliest timestamp\<close>

lemma insort_key_map:
  "insort_key f (g x) (map g xs) = map g (insort_key (\<lambda>y. f (g y)) x xs)"
  by (induction xs) auto

lemma sort_key_map:
  "sort_key f (map g xs) = map g (sort_key (\<lambda>y. f (g y)) xs)"
  by (induction xs) (auto simp: insort_key_map)

lemma stamp_reactors_from:
  assumes "\<forall>r\<in>set reactors. recorded_timestamp rt mid (uid r) \<noteq> None"
  shows "map (\<lambda>(i, reactor).
                (reactor, case recorded_timestamp rt mid (uid reactor) of
                            Some t \<Rightarrow> t | None \<Rightarrow> clk i))
           (enumerate k reactors)
         = map (\<lambda>r. (r, the (recorded_timestamp rt mid (uid r)))) reactors"
  using assms by (induction reactors arbitrary: k) auto

lemma sorted_reactors_recorded:
  assumes "\<forall>r\<in>set reactors. recorded_timestamp rt mid (uid r) \<noteq> None"
  shows "map fst (sorted_reactors rt mid clk reactors)
         = sort_key (\<lambda>r. the (recorded_timestamp rt mid (uid r))) reactors"
  by (simp add: sorted_reactors_def stamp_reactors_def stamp_reactors_from[OF assms]
      sort_key_map o_def)

lemma strict_sorted_sort_key:
  assumes "distinct (map f xs)"
  shows "sorted_wrt (<) (map f (sort_key f xs))"
  using assms by (simp add: strict_sorted_iff distinct_map)

lemma take_before_rest:
  assumes "sorted_wrt (<) (map f xs)"
  shows "\<forall>r\<in>set xs - set (take n xs). \<forall>x\<in>set (take n xs). f x < f r"
proof -
  have "sorted_wrt (<) (map f (take n xs) @ map f (drop n xs))"
    using assms by (simp flip: map_append)
  then have "\<forall>x\<in>set (take n xs). \<forall>r\<in>set (drop n xs). f x < f r"
    by (auto simp: sorted_wrt_append)
  moreover have "set xs - set (take n xs) \<subseteq> set (drop n xs)"
    by (metis Diff_subset_conv append_take_drop_id set_append sup_commute subset_refl)
  ultimately show ?thesis by blast
qed

lemma select_winners_Nil: "select_winners rt mid clk w [] = []"
  by (simp add: select_winners_def sorted_reactors_def stamp_reactors_def slice_to_def)

section \<open>Retries of the ledger write\<close>

lemma sleeps_append: "sleeps (xs @ ys) = sleeps xs @ sleeps ys"
  by (induction xs rule: sleeps.induct) auto

lemma failed_attempts_append:
  "failed_attempts (xs @ ys) = failed_attempts xs @ failed_attempts ys"
  by (induction xs rule: failed_attempts.induct) auto

lemma sheet_attempt_quiet:
  "sleeps (fst (sheet_attempt b r n name)) = []"
  "failed_attempts (fst (sheet_attempt b r n name)) = []"
  by (auto simp: sheet_attempt_def split: option.splits sheet_reply.splits)

lemma sheet_attempt_raises:
  assumes "snd (sheet_attempt b r n name) = Inl e"
  shows "fst (sheet_attempt b r n name) = []"
  using assms
  by (auto simp: sheet_attempt_def split: option.splits sheet_reply.splits if_splits)

lemma write_attempts_Cons:
  "write_attempts b replies n name (k # rest) =
     (case snd (sheet_attempt b (replies k) n name) of
        Inr _ \<Rightarrow> (fst (sheet_attempt b (replies k) n name), Inr ())
      | Inl e \<Rightarrow>
          (fst (sheet_attempt b (replies k) n name)
           @ Logger (Attempt_failed (k + 1) e)
             # (if k < 2 then [Sleep (2 ^ k)] else [Logger Gave_up])
           @ fst (write_attempts b replies n name rest),
           snd (write_attempts b replies n name rest)))"
  by (auto split: prod.splits sum.splits)

lemma write_to_sheet_bounded:
  "prefix (failed_attempts (fst (write_to_sheet b replies n name))) [1, 2, 3]
   \<and> prefix (sleeps (fst (write_to_sheet b replies n name))) [1, 2]"
  unfolding write_to_sheet_def range3 write_attempts_Cons
  by (simp add: sleeps_append failed_attempts_append sheet_attempt_quiet split: sum.splits)

lemma write_to_sheet_all_fail:
  assumes "gc b" and "sheet_url b \<noteq> []"
      and "\<forall>k<3. snd (sheet_attempt b (replies k) n name) = Inl (x k)"
  shows "write_to_sheet b replies n name =
     ([Logger (Attempt_failed 1 (x 0)), Sleep 1, Logger (Attempt_failed 2 (x 1)), Sleep 2,
       Logger (Attempt_failed 3 (x 2)), Logger Gave_up], Inr ())"
proof -
  have a: "sheet_attempt b (replies k) n name = ([], Inl (x k))" if "k < 3" for k
    using assms(3) that sheet_attempt_raises[of b "replies k" n name "x k"]
    by (metis prod.collapse)
  show ?thesis
    using assms(1,2) a[of 0] a[of 1] a[of 2]
    by (simp add: write_to_sheet_def range3)
qed

text \<open>What the round keeps of a winner does not depend on the spreadsheet service.\<close>

lemma dm_winner_sheet:
  "dm_winner b (e\<lparr>sheet_replies := s\<rparr>) u n = dm_winner b e u n"
  by (auto simp: dm_winner_def Let_def split: option.splits)

lemma try_assign_sheet:
  "snd (try_assign b (e\<lparr>sheet_replies := s\<rparr>) u n) = snd (try_assign b e u n)"
  by (simp add: try_assign_def get_or_create_role_def write_to_sheet_returns dm_winner_sheet
        Let_def split: option.splits)

lemma process_winner_sheet:
  "snd (process_winner b (e\<lparr>sheet_replies := s\<rparr>) st i u) = snd (process_winner b e st i u)"
proof -
  obtain fx a r where t: "try_assign b e u (st + int i) = (fx, a, r)"
    by (cases "try_assign b e u (st + int i)") auto
  obtain fx' a' r' where
    t': "try_assign b (e\<lparr>sheet_replies := s\<rparr>) u (st + int i) = (fx', a', r')"
    by (cases "try_assign b (e\<lparr>sheet_replies := s\<rparr>) u (st + int i)") auto
  from try_assign_sheet[where b = b and e = e and s = s and u = u and n = "st + int i"] t t'
  have "a' = a" "r' = r"
    by simp_all
  with t t' show ?thesis
    by (simp add: process_winner_def get_member_safely_def Let_def
          split: option.splits sum.splits)
qed

lemma process_winners_sheet:
  "snd (process_winners b (\<lambda>i. (envs i)\<lparr>sheet_replies := s i\<rparr>) st i us)
   = snd (process_winners b envs st i us)"
proof (induction us arbitrary: i)
  case Nil
  show ?case by simp
next
  case (Cons u us)
  obtain fx a r where p: "process_winner b (envs i) st i u = (fx, a, r)"
    by (cases "process_winner b (envs i) st i u") auto
  obtain fx' a' r' where
    p': "process_winner b ((envs i)\<lparr>sheet_replies := s i\<rparr>) st i u = (fx', a', r')"
    by (cases "process_winner b ((envs i)\<lparr>sheet_replies := s i\<rparr>) st i u") auto
  from process_winner_sheet
         [where b = b and e = "envs i" and s = "s i" and st = st and i = i and u = u] p p'
  have eq: "a' = a" "r' = r"
    by simp_all
  obtain gx as rs where q: "process_winners b envs st (Suc i) us = (gx, as, rs)"
    by (cases "process_winners b envs st (Suc i) us") auto
  obtain gx' as' rs' where
    q': "process_winners b (\<lambda>i. (envs i)\<lparr>sheet_replies := s i\<rparr>) st (Suc i) us
         = (gx', as', rs')"
    by (cases "process_winners b (\<lambda>i. (envs i)\<lparr>sheet_replies := s i\<rparr>) st (Suc i) us") auto
  from Cons.IH[of "Suc i"] q q' have eq2: "as' = as" "rs' = rs"
    by simp_all
  show ?case
    using p p' q q' eq eq2 by (simp split: option.splits)
qed

lemma dispatch_sheet:
  "(dispatch (w\<lparr>winner_envs := \<lambda>i. (winner_envs w i)\<lparr>sheet_replies := s i\<rparr>\<rparr>) b st n mid fx rs)
      \<lparr>r_effects := []\<rparr>
   = (dispatch w b st n mid fx rs)\<lparr>r_effects := []\<rparr>"
proof -
  let ?ws = "select_winners (reaction_timestamps b) mid (clock w) n rs"
  obtain gx as r where q: "process_winners b (winner_envs w) st 0 ?ws = (gx, as, r)"
    by (cases "process_winners b (winner_envs w) st 0 ?ws") auto
  obtain gx' as' r' where
    q': "process_winners b (\<lambda>i. (winner_envs w i)\<lparr>sheet_replies := s i\<rparr>) st 0 ?ws
         = (gx', as', r')"
    by (cases "process_winners b (\<lambda>i. (winner_envs w i)\<lparr>sheet_replies := s i\<rparr>) st 0 ?ws") auto
  from process_winners_sheet
         [where b = b and envs = "winner_envs w" and s = s and st = st and i = 0 and us = "?ws"]
       q q'
  have "as' = as" "r' = r"
    by simp_all
  with q q' show ?thesis
    by (simp add: dispatch_def caught_def Let_def split: option.splits)
qed

lemma resolve_sheet:
  "(resolve (w\<lparr>winner_envs := \<lambda>i. (winner_envs w i)\<lparr>sheet_replies := s i\<rparr>\<rparr>) b st n mid fx)
      \<lparr>r_effects := []\<rparr>
   = (resolve w b st n mid fx)\<lparr>r_effects := []\<rparr>"
  using dispatch_sheet[where w = w and s = s]
  by (simp add: resolve_def no_claims_def caught_def Let_def
        split: sum.splits option.splits prod.splits)

lemma ping_effects_sheet:
  "ping_effects (w\<lparr>winner_envs := envs\<rparr>) b = ping_effects w b"
  by (simp add: ping_effects_def)

lemma open_round_sheet:
  "(open_round (w\<lparr>winner_envs := \<lambda>i. (winner_envs w i)\<lparr>sheet_replies := s i\<rparr>\<rparr>) b)
      \<lparr>r_effects := []\<rparr>
   = (open_round w b)\<lparr>r_effects := []\<rparr>"
  using resolve_sheet[where w = w and s = s]
  by (simp add: open_round_def caught_def ping_effects_sheet collect_window_def Let_def
        split: sum.splits option.splits)

lemma round_sheet:
  "(task_allocation_loop_impl
      (w\<lparr>winner_envs := \<lambda>i. (winner_envs w i)\<lparr>sheet_replies := s i\<rparr>\<rparr>) b)\<lparr>r_effects := []\<rparr>
   = (task_allocation_loop_impl w b)\<lparr>r_effects := []\<rparr>"
  using open_round_sheet[where w = w and s = s and b = b]
  by (simp add: task_allocation_loop_impl_def split: option.splits)

text \<open>
  C7. \<^verbatim>\<open>write_to_sheet\<close> always returns: no exception leaves it. It logs at most the
  failed attempts 1, 2 and 3 and sleeps at most 1 and then 2 seconds, so a write is
  attempted at most three times with a doubling delay between consecutive attempts.
  When all three attempts fail it logs each, sleeps 1 s and 2 s, logs the final failure
  and returns. What a round leaves behind apart from its effects (the bot with its task
  cursor, the exit, the winners assigned) is the same whatever the spreadsheet service
  answers.
\<close>

theorem write_to_sheet_retries:
  "snd (write_to_sheet b replies n name) = Inr ()
   \<and> prefix (failed_attempts (fst (write_to_sheet b replies n name))) [1, 2, 3]
   \<and> prefix (sleeps (fst (write_to_sheet b replies n name))) [1, 2]
   \<and> (gc b \<and> sheet_url b \<noteq> []
        \<and> (\<forall>k<3. snd (sheet_attempt b (replies k) n name) = Inl (x k))
      \<longrightarrow> write_to_sheet b replies n name =
            ([Logger (Attempt_failed 1 (x 0)), Sleep 1, Logger (Attempt_failed 2 (x 1)), Sleep 2,
              Logger (Attempt_failed 3 (x 2)), Logger Gave_up], Inr ()))
   \<and> (task_allocation_loop_impl
         (w\<lparr>winner_envs := \<lambda>i. (winner_envs w i)\<lparr>sheet_replies := s i\<rparr>\<rparr>) bt)\<lparr>r_effects := []\<rparr>
       = (task_allocation_loop_impl w bt)\<lparr>r_effects := []\<rparr>"
  using write_to_sheet_returns[where b = b and replies = replies and n = n and name = name]
    write_to_sheet_bounded[where b = b and replies = replies and n = n and name = name]
    write_to_sheet_all_fail[where b = b and replies = replies and n = n and name = name and x = x]
    round_sheet[where w = w and s = s and b = bt]
  by blast

theorem write_to_sheet_retries_witness:
  "gc bot0 \<and> sheet_url bot0 \<noteq> []
   \<and> snd (sheet_attempt bot0 (Sheet_raises HTTPException) 1 ''alice'') = Inl HTTPException
   \<and> write_to_sheet bot0 (\<lambda>_. Sheet_raises HTTPException) 1 ''alice'' =
        ([Logger (Attempt_failed 1 HTTPException), Sleep 1,
          Logger (Attempt_failed 2 HTTPException), Sleep 2,
          Logger (Attempt_failed 3 HTTPException), Logger Gave_up], Inr ())"
proof -
  have h: "gc bot0 \<and> sheet_url bot0 \<noteq> []"
    by (simp add: bot0_def)
  have a: "snd (sheet_attempt bot0 (Sheet_raises HTTPException) 1 ''alice'') = Inl HTTPException"
    by (simp add: sheet_attempt_def bot0_def sheet_id_char_def)
  from write_to_sheet_retries
         [where b = bot0 and replies = "\<lambda>_. Sheet_raises HTTPException" and n = 1
            and name = "''alice''" and x = "\<lambda>_. HTTPException"]
       h a
  show ?thesis
    by simp
qed

section \<open>The stamps of reactors without a recorded timestamp\<close>

lemma stamp_reactors_nth:
  assumes "i < length reactors"
  shows "stamp_reactors rt mid clk reactors ! i
         = (reactors ! i, case recorded_timestamp rt mid (uid (reactors ! i)) of
                            Some t \<Rightarrow> t | None \<Rightarrow> clk i)"
  using assms by (simp add: stamp_reactors_def nth_enumerate_eq)

lemma stamp_reactors_set:
  assumes "p \<in> set (stamp_reactors rt mid clk reactors)"
  shows "fst p \<in> set reactors \<and>
         (case recorded_timestamp rt mid (uid (fst p)) of
            Some t \<Rightarrow> snd p = t | None \<Rightarrow> \<exists>i. snd p = clk i)"
  using assms by (auto simp: stamp_reactors_def in_set_enumerate_eq split: option.splits)

lemma sorted_reactors_partition:
  assumes "\<forall>r\<in>set reactors. \<forall>t i. recorded_timestamp rt mid (uid r) = Some t \<longrightarrow> t < clk i"
  shows "sorted_wrt (\<lambda>p q. \<not> (recorded_timestamp rt mid (uid (fst p)) = None
                            \<and> recorded_timestamp rt mid (uid (fst q)) \<noteq> None))
           (sorted_reactors rt mid clk reactors)"
proof -
  let ?s = "sorted_reactors rt mid clk reactors"
  have "sorted (map snd ?s)"
    by (simp add: sorted_reactors_def)
  then have le: "sorted_wrt (\<lambda>p q. snd p \<le> snd q) ?s"
    by (simp add: sorted_map)
  have "\<not> (recorded_timestamp rt mid (uid (fst p)) = None
           \<and> recorded_timestamp rt mid (uid (fst q)) \<noteq> None)"
    if "p \<in> set ?s" "q \<in> set ?s" "snd p \<le> snd q" for p q
  proof
    assume a: "recorded_timestamp rt mid (uid (fst p)) = None
               \<and> recorded_timestamp rt mid (uid (fst q)) \<noteq> None"
    from that(1) have "p \<in> set (stamp_reactors rt mid clk reactors)"
      by (simp add: sorted_reactors_def)
    from stamp_reactors_set[OF this] a obtain i where i: "snd p = clk i"
      by auto
    from that(2) have "q \<in> set (stamp_reactors rt mid clk reactors)"
      by (simp add: sorted_reactors_def)
    from stamp_reactors_set[OF this] a
    have "fst q \<in> set reactors" "recorded_timestamp rt mid (uid (fst q)) = Some (snd q)"
      by auto
    with assms have "snd q < clk i" by blast
    with i that(3) show False by simp
  qed
  with le show ?thesis
    by (rule sorted_wrt_mono_rel[rotated])
qed

lemma winners_partition:
  assumes "\<forall>r\<in>set reactors. \<forall>t i. recorded_timestamp rt mid (uid r) = Some t \<longrightarrow> t < clk i"
  shows "sorted_wrt (\<lambda>a b. \<not> (recorded_timestamp rt mid (uid a) = None
                            \<and> recorded_timestamp rt mid (uid b) \<noteq> None))
           (map fst (sorted_reactors rt mid clk reactors))"
    and "sorted_wrt (\<lambda>a b. \<not> (recorded_timestamp rt mid (uid a) = None
                            \<and> recorded_timestamp rt mid (uid b) \<noteq> None))
           (select_winners rt mid clk w reactors)"
  using sorted_reactors_partition[OF assms]
  by (simp_all add: sorted_wrt_map select_winners_def slice_to_def sorted_wrt_take)

lemma foldl_earliest_none:
  assumes "\<forall>r\<in>set rs. recorded_timestamp rt mid (uid r) = None"
  shows "foldl (earliest_step rt mid first) (first, None) rs = (first, None)"
  using assms by (induction rs) (auto simp: earliest_step_def)

lemma find_first_reactor_unrecorded:
  assumes "reactors \<noteq> []" and "\<forall>r\<in>set reactors. recorded_timestamp rt mid (uid r) = None"
  shows "find_first_reactor rt mid reactors = Some (hd reactors)"
  using assms
  by (cases reactors) (simp_all add: find_first_reactor_def foldl_earliest_none del: foldl.simps)

section \<open>Evaluating the example rounds\<close>

lemma bot0_fields:
  "configured bot0" "announce_channel bot0" "logs_channel bot0" "current_task bot0 = 1"
  "total_tasks bot0 = 3" "winners_per_task bot0 = 2" "gc bot0"
  "reaction_timestamps bot0 = Map.empty" "reaction_time bot0 = 5"
  "role_removal_hours bot0 = 12"
  by (simp_all add: bot0_def)

lemma users_fields:
  "uid alice = 11" "uid bob = 22" "uid taskbot = 1"
  "\<not> is_bot alice" "\<not> is_bot bob" "is_bot taskbot"
  "uname alice = ''alice''" "uname bob = ''bob''"
  by (simp_all add: alice_def bob_def taskbot_def)

lemma env_ok_fields:
  "guild_present env_ok" "member_cached env_ok" "fetch_member_reply env_ok = None"
  "in_guild_members env_ok" "role_exists env_ok" "create_role_reply env_ok = None"
  "manage_roles env_ok" "bot_top_position env_ok = 5" "role_position env_ok = 2"
  "add_roles_reply env_ok = None" "dm_send_reply env_ok = None"
  "fallback_send_reply env_ok = None" "sheet_replies env_ok = (\<lambda>_. Sheet_rows 10 None)"
  "role_in_member_roles env_ok" "notice_reply env_ok = None" "handler_reply env_ok = None"
  by (simp_all add: env_ok_def)

lemma world0_fields:
  "complete_reply world0 = None" "announce_reply world0 = Inr 100"
  "add_reaction_reply world0 = None" "ping_role_found world0" "ping_reply world0 = None"
  "window_reactions world0 = [(bob, CHECKMARK, 100, 3), (alice, CHECKMARK, 100, 7)]"
  "fetch_reply world0 = Inr [\<lparr>r_emoji = CHECKMARK, r_users = ([taskbot, alice, bob], None)\<rparr>]"
  "clock world0 = (\<lambda>_. 50)" "winner_envs world0 = (\<lambda>_. env_ok)" "summary_reply world0 = None"
  by (simp_all add: world0_def)

lemma sheet_id0: "extract_sheet_id (sheet_url bot0) = Some ''abc-123_X''"
  by (simp add: bot0_def sheet_id_char_def)

lemma write_to_sheet_ok:
  assumes "gc b" and "extract_sheet_id (sheet_url b) = Some sid"
      and "replies 0 = Sheet_rows rows None" and "n + 1 \<le> int rows"
  shows "write_to_sheet b replies n name
         = ([Update_cell (n + 1) 4 name, Logger (Sheet_updated n name)], Inr ())"
  using assms by (auto simp: write_to_sheet_def range3 sheet_attempt_def)

lemma process_winner_ok:
  assumes "gc b" and "extract_sheet_id (sheet_url b) = Some sid"
      and "logs_channel b" and "st + int i + 1 \<le> 10"
  shows "process_winner b env_ok st i u =
    ([Add_roles (uid u) (st + int i), Schedule_role_removal (uid u) (role_removal_hours b),
      Send_log (Role_given_log (uid u) (st + int i)),
      Direct_message (uid u) (dm_embed b (st + int i)), Logger (Dm_ok (uid u) (st + int i)),
      Send_log (Dm_sent_log (uid u) (st + int i)),
      Update_cell (st + int i + 1) 4 (uname u), Logger (Sheet_updated (st + int i) (uname u))],
     Some (uid u, st + int i), None)"
  using assms
  by (simp add: process_winner_def try_assign_def get_member_safely_def get_or_create_role_def
        dm_winner_def send_log_def env_ok_fields write_to_sheet_ok[where sid = sid] Let_def)

lemma process_winner_gone:
  "process_winner b env_gone st i u = ([Post (Member_not_found (uid u))], None, None)"
  by (simp add: process_winner_def get_member_safely_def env_gone_def env_ok_fields send_post_def)

lemma process_winner_forbidden:
  "process_winner b env_forbidden st i u = ([Post Lacks_permission], None, None)"
  by (simp add: process_winner_def try_assign_def get_member_safely_def get_or_create_role_def
        env_forbidden_def env_ok_fields send_post_def handler_post_def)

lemmas round_eval =
  task_allocation_loop_impl_def open_round_def open_bucket_def collect_window_def resolve_def
  dispatch_def no_claims_def ping_effects_def send_log_def discard_def world0_fields bot0_fields users_fields
  on_reaction_add_def select_winners_def sorted_reactors_def stamp_reactors_def slice_to_def
  recorded_timestamp_def numeral_2_eq_2 sheet_id0 dm_embed_def Let_def

lemma round_ok:
  "task_allocation_loop_impl world0 bot0 =
     \<lparr>r_bot = bot0\<lparr>reaction_timestamps := Map.empty, current_task := 2\<rparr>,
      r_effects = [Post (Task_available 1 2), Add_reaction, Post Role_ping,
                   Send_log (Task_created_log 1 2), Sleep 5,
                   Add_roles 22 1, Schedule_role_removal 22 12, Send_log (Role_given_log 22 1),
                   Direct_message 22 (dm_embed bot0 1), Logger (Dm_ok 22 1),
                   Send_log (Dm_sent_log 22 1),
                   Update_cell 2 4 ''bob'', Logger (Sheet_updated 1 ''bob''),
                   Add_roles 11 2, Schedule_role_removal 11 12, Send_log (Role_given_log 11 2),
                   Direct_message 11 (dm_embed bot0 2), Logger (Dm_ok 11 2),
                   Send_log (Dm_sent_log 11 2),
                   Update_cell 3 4 ''alice'', Logger (Sheet_updated 2 ''alice''),
                   Post (Tasks_assigned [(22, 1), (11, 2)])],
      r_exit = Dispatched, r_reactors = Some [alice, bob], r_winners = [bob, alice],
      r_assigned = [(22, 1), (11, 2)]\<rparr>"
  by (simp add: round_eval process_winner_ok[where sid = "''abc-123_X''"])

lemma round_gap:
  "task_allocation_loop_impl world_gap bot0 =
     \<lparr>r_bot = bot0\<lparr>reaction_timestamps := Map.empty, current_task := 2\<rparr>,
      r_effects = [Post (Task_available 1 2), Add_reaction, Post Role_ping,
                   Send_log (Task_created_log 1 2), Sleep 5,
                   Post (Member_not_found 22),
                   Add_roles 11 2, Schedule_role_removal 11 12, Send_log (Role_given_log 11 2),
                   Direct_message 11 (dm_embed bot0 2), Logger (Dm_ok 11 2),
                   Send_log (Dm_sent_log 11 2),
                   Update_cell 3 4 ''alice'', Logger (Sheet_updated 2 ''alice''),
                   Post (Task_assigned 11 2)],
      r_exit = Dispatched, r_reactors = Some [alice, bob], r_winners = [bob, alice],
      r_assigned = [(11, 2)]\<rparr>"
  by (simp add: round_eval world_gap_def process_winner_gone
        process_winner_ok[where sid = "''abc-123_X''"])

lemma round_gone:
  "task_allocation_loop_impl world_gone bot0 =
     \<lparr>r_bot = bot0\<lparr>reaction_timestamps := Map.empty\<rparr>,
      r_effects = [Post (Task_available 1 2), Add_reaction, Post Role_ping,
                   Send_log (Task_created_log 1 2), Sleep 5,
                   Post (Member_not_found 22), Post (Member_not_found 11),
                   Post Assignment_failed],
      r_exit = Dispatched, r_reactors = Some [alice, bob], r_winners = [bob, alice],
      r_assigned = []\<rparr>"
  by (simp add: round_eval world_gone_def process_winner_gone)

lemma round_forbidden:
  "task_allocation_loop_impl world_forbidden bot0 =
     \<lparr>r_bot = bot0\<lparr>reaction_timestamps := Map.empty\<rparr>,
      r_effects = [Post (Task_available 1 2), Add_reaction, Post Role_ping,
                   Send_log (Task_created_log 1 2), Sleep 5,
                   Post Lacks_permission, Post Lacks_permission,
                   Post Assignment_failed],
      r_exit = Dispatched, r_reactors = Some [alice, bob], r_winners = [bob, alice],
      r_assigned = []\<rparr>"
  by (simp add: round_eval world_forbidden_def process_winner_forbidden)

lemma round_cleared:
  "task_allocation_loop_impl world_cleared bot0 =
     \<lparr>r_bot = bot0\<lparr>reaction_timestamps := [100 \<mapsto> [22 \<mapsto> 3, 11 \<mapsto> 7]]\<rparr>,
      r_effects = [Post (Task_available 1 2), Add_reaction, Post Role_ping,
                   Send_log (Task_created_log 1 2), Sleep 5],
      r_exit = No_checkmark, r_reactors = None, r_winners = [], r_assigned = []\<rparr>"
  by (simp add: round_eval world_cleared_def)

lemma round_empty:
  "task_allocation_loop_impl world_empty bot0 =
     \<lparr>r_bot = bot0\<lparr>reaction_timestamps := Map.empty\<rparr>,
      r_effects = [Post (Task_available 1 2), Add_reaction, Post Role_ping,
                   Send_log (Task_created_log 1 2), Sleep 5,
                   Post (No_claims 1 2), Send_log (No_claims_log 1 2)],
      r_exit = Empty, r_reactors = Some [], r_winners = [], r_assigned = []\<rparr>"
  by (simp add: round_eval world_empty_def)

section \<open>The shape of a round\<close>

lemma on_reaction_add_current_task:
  "current_task (on_reaction_add b u emoji mid now) = current_task b"
  by (simp add: on_reaction_add_def Let_def split: option.splits)

lemma window_current_task:
  "current_task (foldl (\<lambda>s (u, emoji, m, now). on_reaction_add s u emoji m now) b evs)
   = current_task b"
  by (induction evs arbitrary: b) (auto simp: on_reaction_add_current_task split: prod.splits)

lemma collect_window_current_task:
  "current_task (collect_window w (open_bucket b mid)) = current_task b"
  by (simp add: collect_window_def open_bucket_def window_current_task)

lemma discard_current_task: "current_task (discard b mid) = current_task b"
  by (simp add: discard_def)

lemma resolve_cases:
  "(\<exists>rs. rs \<noteq> [] \<and> resolve w b2 st n mid fx = dispatch w b2 st n mid fx rs)
   \<or> resolve w b2 st n mid fx = no_claims w b2 st n mid fx
   \<or> (current_task (r_bot (resolve w b2 st n mid fx)) = current_task b2
       \<and> r_winners (resolve w b2 st n mid fx) = []
       \<and> r_assigned (resolve w b2 st n mid fx) = []
       \<and> r_exit (resolve w b2 st n mid fx) \<noteq> Dispatched
       \<and> r_exit (resolve w b2 st n mid fx) \<noteq> Empty)"
  by (auto simp: resolve_def caught_def discard_current_task Let_def
        split: sum.splits option.splits prod.splits)

text \<open>
  Every round either reaches the branch \<^verbatim>\<open>if reactors:\<close> with a non-empty list, or its
  \<^verbatim>\<open>else\<close> branch, or ends before that branching; the task cursor is then still the
  one the round started with.
\<close>

lemma round_cases:
  assumes "R = task_allocation_loop_impl w b"
  shows "(\<exists>mid b2 fx rs. rs \<noteq> [] \<and> current_task b2 = current_task b
            \<and> R = dispatch w b2 (current_task b) (winners_per_task b) mid fx rs)
       \<or> (\<exists>mid b2 fx. current_task b2 = current_task b
            \<and> R = no_claims w b2 (current_task b) (winners_per_task b) mid fx)
       \<or> (current_task (r_bot R) = current_task b \<and> r_winners R = []
            \<and> r_assigned R = [] \<and> r_exit R \<noteq> Dispatched \<and> r_exit R \<noteq> Empty)"
proof -
  let ?b1 = "\<lambda>mid. open_bucket b mid"
  let ?b2 = "\<lambda>mid. collect_window w (?b1 mid)"
  have c: "current_task (?b2 mid) = current_task b" for mid
    by (simp add: collect_window_current_task)
  show ?thesis
  proof (cases "\<not> configured b \<or> \<not> announce_channel b \<or> current_task b > total_tasks b")
    case True
    then show ?thesis
      using assms by (auto simp: task_allocation_loop_impl_def split: option.splits)
  next
    case False
    then have R: "R = open_round w b"
      using assms by (auto simp: task_allocation_loop_impl_def)
    show ?thesis
    proof (cases "announce_reply w")
      case (Inl x)
      then show ?thesis using R by (simp add: open_round_def caught_def)
    next
      case (Inr mid)
      show ?thesis
      proof (cases "add_reaction_reply w")
        case (Some x)
        then show ?thesis using R Inr by (simp add: open_round_def caught_def open_bucket_def)
      next
        case None
        define fx where
          "fx = [Post (Task_available (current_task b) (winners_per_task b))] @ [Add_reaction]
                @ ping_effects w (?b1 mid)
                @ send_log (?b1 mid) (Task_created_log (current_task b) (winners_per_task b))
                @ [Sleep (reaction_time (?b1 mid))]"
        have R': "R = resolve w (?b2 mid) (current_task b) (winners_per_task b) mid fx"
          using R Inr None by (simp add: open_round_def Let_def fx_def)
        from resolve_cases[of w "?b2 mid" "current_task b" "winners_per_task b" mid fx]
             c[of mid] R'
        show ?thesis by metis
      qed
    qed
  qed
qed

lemma no_claims_facts:
  "current_task (r_bot (no_claims w b st n mid fx)) = current_task b
   \<and> r_reactors (no_claims w b st n mid fx) = Some []
   \<and> r_winners (no_claims w b st n mid fx) = []
   \<and> r_assigned (no_claims w b st n mid fx) = []
   \<and> r_exit (no_claims w b st n mid fx) \<noteq> Dispatched"
  by (simp add: no_claims_def caught_def discard_current_task split: option.splits)

lemma dispatch_facts:
  "r_reactors (dispatch w b st n mid fx rs) = Some rs
   \<and> r_winners (dispatch w b st n mid fx rs)
       = select_winners (reaction_timestamps b) mid (clock w) n rs
   \<and> r_assigned (dispatch w b st n mid fx rs)
       = fst (snd (process_winners b (winner_envs w) st 0
                     (select_winners (reaction_timestamps b) mid (clock w) n rs)))
   \<and> r_exit (dispatch w b st n mid fx rs) \<noteq> Empty
   \<and> (r_exit (dispatch w b st n mid fx rs) = Dispatched \<longrightarrow>
        current_task (r_bot (dispatch w b st n mid fx rs))
        = (if r_assigned (dispatch w b st n mid fx rs) = [] then current_task b
           else current_task b + 1))
   \<and> (current_task (r_bot (dispatch w b st n mid fx rs)) = current_task b
      \<or> current_task (r_bot (dispatch w b st n mid fx rs)) = current_task b + 1)"
proof -
  obtain gx as r where
    q: "process_winners b (winner_envs w) st 0
          (select_winners (reaction_timestamps b) mid (clock w) n rs) = (gx, as, r)"
    by (cases "process_winners b (winner_envs w) st 0
                 (select_winners (reaction_timestamps b) mid (clock w) n rs)") auto
  show ?thesis
    using q
    by (simp add: dispatch_def caught_def discard_current_task Let_def split: option.splits)
qed

section \<open>The winners of a round\<close>

text \<open>
  A round that is configured, has tasks left, posts its announcement as message
  \<open>mid\<close>, and at resolution finds the check-mark reaction and enumerates its users
  \<open>us\<close> to the end, reaches the branching \<^verbatim>\<open>if reactors:\<close> with the non-bot users of
  \<open>us\<close> and with the tracker as the window left it.
\<close>

lemma round_resolves:
  assumes "configured b" and "announce_channel b" and "current_task b \<le> total_tasks b"
      and "announce_reply w = Inr mid" and "add_reaction_reply w = None"
      and "fetch_reply w = Inr reactions"
      and "find (\<lambda>r. r_emoji r = CHECKMARK) reactions = Some cr"
      and "r_users cr = (us, None)"
  shows "task_allocation_loop_impl w b
         = (let b1 = open_bucket b mid;
                fx = [Post (Task_available (current_task b) (winners_per_task b))]
                     @ [Add_reaction] @ ping_effects w b1
                     @ send_log b1 (Task_created_log (current_task b) (winners_per_task b))
                     @ [Sleep (reaction_time b1)];
                b2 = collect_window w b1;
                reactors = filter (\<lambda>u. \<not> is_bot u) us
            in if reactors \<noteq> []
               then dispatch w b2 (current_task b) (winners_per_task b) mid fx reactors
               else no_claims w b2 (current_task b) (winners_per_task b) mid fx)"
  using assms by (simp add: task_allocation_loop_impl_def open_round_def resolve_def Let_def)

lemma round_selects:
  assumes "configured b" and "announce_channel b" and "current_task b \<le> total_tasks b"
      and "announce_reply w = Inr mid" and "add_reaction_reply w = None"
      and "fetch_reply w = Inr reactions"
      and "find (\<lambda>r. r_emoji r = CHECKMARK) reactions = Some cr"
      and "r_users cr = (us, None)"
  shows "r_reactors (task_allocation_loop_impl w b) = Some (filter (\<lambda>u. \<not> is_bot u) us)"
    and "filter (\<lambda>u. \<not> is_bot u) us \<noteq> [] \<Longrightarrow>
         r_winners (task_allocation_loop_impl w b)
         = select_winners (reaction_timestamps (collect_window w (open_bucket b mid))) mid
             (clock w) (winners_per_task b) (filter (\<lambda>u. \<not> is_bot u) us)"
    and "filter (\<lambda>u. \<not> is_bot u) us = [] \<Longrightarrow>
         r_winners (task_allocation_loop_impl w b) = []
         \<and> r_assigned (task_allocation_loop_impl w b) = []
         \<and> (summary_reply w = None \<longrightarrow> r_exit (task_allocation_loop_impl w b) = Empty)"
proof -
  define R where "R = task_allocation_loop_impl w b"
  define rs where "rs = filter (\<lambda>u. \<not> is_bot u) us"
  define b2 where "b2 = collect_window w (open_bucket b mid)"
  define fx where
    "fx = [Post (Task_available (current_task b) (winners_per_task b))]
          @ [Add_reaction] @ ping_effects w (open_bucket b mid)
          @ send_log (open_bucket b mid) (Task_created_log (current_task b) (winners_per_task b))
          @ [Sleep (reaction_time (open_bucket b mid))]"
  have R: "R = (if rs \<noteq> [] then dispatch w b2 (current_task b) (winners_per_task b) mid fx rs
                else no_claims w b2 (current_task b) (winners_per_task b) mid fx)"
    using round_resolves[OF assms] by (simp add: Let_def R_def rs_def b2_def fx_def)
  have d: "r_reactors R = Some rs
           \<and> r_winners R = select_winners (reaction_timestamps b2) mid (clock w)
                            (winners_per_task b) rs" if "rs \<noteq> []"
    using dispatch_facts[where w = w and b = b2 and st = "current_task b"
                           and n = "winners_per_task b" and mid = mid and fx = fx and rs = rs]
      that R
    by simp
  have e: "r_reactors R = Some [] \<and> r_winners R = [] \<and> r_assigned R = []
           \<and> (summary_reply w = None \<longrightarrow> r_exit R = Empty)" if "rs = []"
    using that R by (simp add: no_claims_def caught_def split: option.splits)
  show "r_reactors (task_allocation_loop_impl w b) = Some (filter (\<lambda>u. \<not> is_bot u) us)"
    using d e unfolding R_def rs_def by (cases "filter (\<lambda>u. \<not> is_bot u) us = []") simp_all
  show "r_winners (task_allocation_loop_impl w b)
        = select_winners (reaction_timestamps (collect_window w (open_bucket b mid))) mid
            (clock w) (winners_per_task b) (filter (\<lambda>u. \<not> is_bot u) us)"
    if "filter (\<lambda>u. \<not> is_bot u) us \<noteq> []"
    using d that unfolding R_def rs_def b2_def by simp
  show "r_winners (task_allocation_loop_impl w b) = []
        \<and> r_assigned (task_allocation_loop_impl w b) = []
        \<and> (summary_reply w = None \<longrightarrow> r_exit (task_allocation_loop_impl w b) = Empty)"
    if "filter (\<lambda>u. \<not> is_bot u) us = []"
    using e that unfolding R_def rs_def by simp
qed

text \<open>
  The selection among reactors that all have a recorded timestamp, pairwise distinct.
\<close>

lemma select_winners_recorded:
  assumes rec: "\<forall>r\<in>set reactors. recorded_timestamp rt mid (uid r) \<noteq> None"
      and dist: "distinct (map (\<lambda>r. recorded_timestamp rt mid (uid r)) reactors)"
      and n: "0 \<le> n"
  shows "select_winners rt mid clk n reactors
         = take (min (nat n) (length reactors))
             (sort_key (\<lambda>r. the (recorded_timestamp rt mid (uid r))) reactors)"
    and "length (select_winners rt mid clk n reactors) = min (nat n) (length reactors)"
    and "set (select_winners rt mid clk n reactors) \<subseteq> set reactors"
    and "sorted_wrt (<) (map (\<lambda>r. the (recorded_timestamp rt mid (uid r)))
                           (select_winners rt mid clk n reactors))"
    and "\<forall>r\<in>set reactors - set (select_winners rt mid clk n reactors).
           \<forall>x\<in>set (select_winners rt mid clk n reactors).
             the (recorded_timestamp rt mid (uid x)) < the (recorded_timestamp rt mid (uid r))"
proof -
  define ts :: "user \<Rightarrow> int" where "ts = (\<lambda>r. the (recorded_timestamp rt mid (uid r)))"
  define ws where "ws = select_winners rt mid clk n reactors"
  have "ws = map fst (take (nat n) (sorted_reactors rt mid clk reactors))"
    using n by (simp add: ws_def select_winners_def slice_to_def)
  also have "\<dots> = take (nat n) (map fst (sorted_reactors rt mid clk reactors))"
    by (simp add: take_map)
  finally have ws: "ws = take (nat n) (sort_key ts reactors)"
    by (simp add: sorted_reactors_recorded[OF rec] ts_def)
  have "map ts reactors = map the (map (\<lambda>r. recorded_timestamp rt mid (uid r)) reactors)"
    by (simp add: ts_def)
  moreover have "inj_on the (set (map (\<lambda>r. recorded_timestamp rt mid (uid r)) reactors))"
  proof (rule inj_onI)
    fix p q
    assume "p \<in> set (map (\<lambda>r. recorded_timestamp rt mid (uid r)) reactors)"
       and "q \<in> set (map (\<lambda>r. recorded_timestamp rt mid (uid r)) reactors)"
       and "the p = the q"
    moreover from this rec have "p \<noteq> None" "q \<noteq> None" by auto
    ultimately show "p = q" by auto
  qed
  ultimately have d: "distinct (map ts reactors)"
    using dist by (metis distinct_map)
  have s: "sorted_wrt (<) (map ts (sort_key ts reactors))"
    using d by (rule strict_sorted_sort_key)
  have 1: "ws = take (min (nat n) (length reactors)) (sort_key ts reactors)"
    by (simp add: ws min_def)
  have 2: "length ws = min (nat n) (length reactors)"
    by (simp add: ws min_def)
  have 3: "set ws \<subseteq> set reactors"
    unfolding ws using set_take_subset[of "nat n" "sort_key ts reactors"] by simp
  have 4: "sorted_wrt (<) (map ts ws)"
    unfolding ws using s by (simp add: take_map[symmetric] sorted_wrt_take)
  have 5: "\<forall>r\<in>set reactors - set ws. \<forall>x\<in>set ws. ts x < ts r"
    unfolding ws using take_before_rest[OF s, of "nat n"] by simp
  show "select_winners rt mid clk n reactors
        = take (min (nat n) (length reactors))
            (sort_key (\<lambda>r. the (recorded_timestamp rt mid (uid r))) reactors)"
    using 1 unfolding ws_def ts_def .
  show "length (select_winners rt mid clk n reactors) = min (nat n) (length reactors)"
    using 2 unfolding ws_def .
  show "set (select_winners rt mid clk n reactors) \<subseteq> set reactors"
    using 3 unfolding ws_def .
  show "sorted_wrt (<) (map (\<lambda>r. the (recorded_timestamp rt mid (uid r)))
                          (select_winners rt mid clk n reactors))"
    using 4 unfolding ws_def ts_def .
  show "\<forall>r\<in>set reactors - set (select_winners rt mid clk n reactors).
          \<forall>x\<in>set (select_winners rt mid clk n reactors).
            the (recorded_timestamp rt mid (uid x)) < the (recorded_timestamp rt mid (uid r))"
    using 5 unfolding ws_def ts_def .
qed

lemma world_three_fields:
  "announce_reply world_three = Inr 100" "add_reaction_reply world_three = None"
  "window_reactions world_three
   = [(bob, CHECKMARK, 100, 3), (carol, CHECKMARK, 100, 5), (alice, CHECKMARK, 100, 7)]"
  "fetch_reply world_three
   = Inr [\<lparr>r_emoji = CHECKMARK, r_users = ([taskbot, alice, bob, carol], None)\<rparr>]"
  "clock world_three = (\<lambda>_. 50)" "summary_reply world_three = None"
  by (simp_all add: world_three_def world0_fields)

lemma world_empty_fields:
  "announce_reply world_empty = Inr 100" "add_reaction_reply world_empty = None"
  "window_reactions world_empty = []"
  "fetch_reply world_empty = Inr [\<lparr>r_emoji = CHECKMARK, r_users = ([taskbot], None)\<rparr>]"
  "summary_reply world_empty = None"
  by (simp_all add: world_empty_def world0_fields)

lemma carol_fields: "uid carol = 33" "\<not> is_bot carol"
  by (simp_all add: carol_def)

lemma tracker_three:
  "reaction_timestamps (collect_window world_three (open_bucket bot0 100))
   = [100 \<mapsto> [22 \<mapsto> 3, 33 \<mapsto> 5, 11 \<mapsto> 7]]"
  by (simp add: collect_window_def open_bucket_def world_three_fields on_reaction_add_def
        bot0_fields users_fields carol_fields Let_def)

text \<open>
  C1. Take a round that reaches its resolution: it is configured, has tasks left,
  posts its announcement as message \<open>mid\<close>, finds the check-mark reaction \<open>cr\<close> on the
  fetched announcement and enumerates its users \<open>us\<close>. Its reactors are the non-bot
  users of \<open>us\<close>, its tracker \<open>rt\<close> is \<^verbatim>\<open>reaction_timestamps\<close> as the window left it, and
  \<open>n\<close> is the bot's \<^verbatim>\<open>winners_per_task\<close>. When the reactors are not empty, each has a
  recorded timestamp, and these timestamps are pairwise distinct, then for \<open>n \<ge> 0\<close> the
  winners of the round are the first \<open>min n (number of reactors)\<close> reactors in the order
  of their recorded timestamps: they are reactors, their timestamps increase strictly
  along the list, and every reactor left out reacted later than every winner. When the
  reactors are empty, the round has no winners and assigns nothing, and it ends with
  the exit \<open>Empty\<close> once its no-claims post is delivered, not with an error.
\<close>

theorem select_winners_earliest:
  assumes "configured b" and "announce_channel b" and "current_task b \<le> total_tasks b"
      and "announce_reply w = Inr mid" and "add_reaction_reply w = None"
      and "fetch_reply w = Inr reactions"
      and "find (\<lambda>r. r_emoji r = CHECKMARK) reactions = Some cr"
      and "r_users cr = (us, None)"
  shows "(let R = task_allocation_loop_impl w b;
              reactors = filter (\<lambda>u. \<not> is_bot u) us;
              rt = reaction_timestamps (collect_window w (open_bucket b mid));
              ts = (\<lambda>r::user. the (recorded_timestamp rt mid (uid r)));
              n = winners_per_task b
          in r_reactors R = Some reactors
           \<and> (reactors \<noteq> []
                \<and> (\<forall>r\<in>set reactors. recorded_timestamp rt mid (uid r) \<noteq> None)
                \<and> distinct (map (\<lambda>r. recorded_timestamp rt mid (uid r)) reactors) \<and> 0 \<le> n
              \<longrightarrow> r_winners R = take (min (nat n) (length reactors)) (sort_key ts reactors)
                  \<and> length (r_winners R) = min (nat n) (length reactors)
                  \<and> set (r_winners R) \<subseteq> set reactors
                  \<and> sorted_wrt (<) (map ts (r_winners R))
                  \<and> (\<forall>r\<in>set reactors - set (r_winners R). \<forall>x\<in>set (r_winners R). ts x < ts r))
           \<and> (reactors = []
              \<longrightarrow> r_winners R = [] \<and> r_assigned R = []
                  \<and> (summary_reply w = None \<longrightarrow> r_exit R = Empty)))"
proof -
  define R where "R = task_allocation_loop_impl w b"
  define reactors where "reactors = filter (\<lambda>u. \<not> is_bot u) us"
  define rt where "rt = reaction_timestamps (collect_window w (open_bucket b mid))"
  define ts :: "user \<Rightarrow> int" where "ts = (\<lambda>r. the (recorded_timestamp rt mid (uid r)))"
  define n where "n = winners_per_task b"
  have 1: "r_reactors R = Some reactors"
    using round_selects(1)[OF assms] by (simp add: R_def reactors_def)
  have 2: "r_winners R = take (min (nat n) (length reactors)) (sort_key ts reactors)
           \<and> length (r_winners R) = min (nat n) (length reactors)
           \<and> set (r_winners R) \<subseteq> set reactors
           \<and> sorted_wrt (<) (map ts (r_winners R))
           \<and> (\<forall>r\<in>set reactors - set (r_winners R). \<forall>x\<in>set (r_winners R). ts x < ts r)"
    if ne: "reactors \<noteq> []"
      and rec: "\<forall>r\<in>set reactors. recorded_timestamp rt mid (uid r) \<noteq> None"
      and dist: "distinct (map (\<lambda>r. recorded_timestamp rt mid (uid r)) reactors)"
      and n: "0 \<le> n"
  proof -
    have w: "r_winners R = select_winners rt mid (clock w) n reactors"
      using round_selects(2)[OF assms] ne by (simp add: R_def reactors_def rt_def n_def)
    show ?thesis
      unfolding w ts_def
      using select_winners_recorded[OF rec dist n, where clk = "clock w"]
      by (intro conjI)
  qed
  have 3: "r_winners R = [] \<and> r_assigned R = [] \<and> (summary_reply w = None \<longrightarrow> r_exit R = Empty)"
    if "reactors = []"
    using round_selects(3)[OF assms] that by (simp add: R_def reactors_def)
  have "r_reactors R = Some reactors
        \<and> (reactors \<noteq> []
             \<and> (\<forall>r\<in>set reactors. recorded_timestamp rt mid (uid r) \<noteq> None)
             \<and> distinct (map (\<lambda>r. recorded_timestamp rt mid (uid r)) reactors) \<and> 0 \<le> n
           \<longrightarrow> r_winners R = take (min (nat n) (length reactors)) (sort_key ts reactors)
               \<and> length (r_winners R) = min (nat n) (length reactors)
               \<and> set (r_winners R) \<subseteq> set reactors
               \<and> sorted_wrt (<) (map ts (r_winners R))
               \<and> (\<forall>r\<in>set reactors - set (r_winners R). \<forall>x\<in>set (r_winners R). ts x < ts r))
        \<and> (reactors = []
           \<longrightarrow> r_winners R = [] \<and> r_assigned R = []
               \<and> (summary_reply w = None \<longrightarrow> r_exit R = Empty))"
    using 1 2 3 by blast
  then show ?thesis
    unfolding Let_def R_def reactors_def rt_def ts_def n_def .
qed

theorem select_winners_earliest_witness:
  "configured bot0 \<and> announce_channel bot0 \<and> current_task bot0 \<le> total_tasks bot0
   \<and> winners_per_task bot0 = 2
   \<and> announce_reply world_three = Inr 100 \<and> add_reaction_reply world_three = None
   \<and> fetch_reply world_three
       = Inr [\<lparr>r_emoji = CHECKMARK, r_users = ([taskbot, alice, bob, carol], None)\<rparr>]
   \<and> r_reactors (task_allocation_loop_impl world_three bot0) = Some [alice, bob, carol]
   \<and> recorded_timestamp
        (reaction_timestamps (collect_window world_three (open_bucket bot0 100))) 100 (uid alice)
       = Some 7
   \<and> recorded_timestamp
        (reaction_timestamps (collect_window world_three (open_bucket bot0 100))) 100 (uid bob)
       = Some 3
   \<and> recorded_timestamp
        (reaction_timestamps (collect_window world_three (open_bucket bot0 100))) 100 (uid carol)
       = Some 5
   \<and> r_winners (task_allocation_loop_impl world_three bot0) = [bob, carol]
   \<and> fetch_reply world_empty = Inr [\<lparr>r_emoji = CHECKMARK, r_users = ([taskbot], None)\<rparr>]
   \<and> summary_reply world_empty = None
   \<and> r_reactors (task_allocation_loop_impl world_empty bot0) = Some []
   \<and> r_winners (task_allocation_loop_impl world_empty bot0) = []
   \<and> r_exit (task_allocation_loop_impl world_empty bot0) = Empty"
proof -
  have b: "configured bot0" "announce_channel bot0" "current_task bot0 \<le> total_tasks bot0"
    by (simp_all add: bot0_fields)
  have f: "find (\<lambda>r. r_emoji r = CHECKMARK)
             [\<lparr>r_emoji = CHECKMARK, r_users = ([taskbot, alice, bob, carol], None)\<rparr>]
           = Some \<lparr>r_emoji = CHECKMARK, r_users = ([taskbot, alice, bob, carol], None)\<rparr>"
          "r_users \<lparr>r_emoji = CHECKMARK, r_users = ([taskbot, alice, bob, carol], None)\<rparr>
           = ([taskbot, alice, bob, carol], None)"
    by simp_all
  have g: "find (\<lambda>r. r_emoji r = CHECKMARK) [\<lparr>r_emoji = CHECKMARK, r_users = ([taskbot], None)\<rparr>]
           = Some \<lparr>r_emoji = CHECKMARK, r_users = ([taskbot], None)\<rparr>"
          "r_users \<lparr>r_emoji = CHECKMARK, r_users = ([taskbot], None)\<rparr> = ([taskbot], None)"
    by simp_all
  have r: "recorded_timestamp
             (reaction_timestamps (collect_window world_three (open_bucket bot0 100))) 100
             (uid alice) = Some 7
           \<and> recorded_timestamp
               (reaction_timestamps (collect_window world_three (open_bucket bot0 100))) 100
               (uid bob) = Some 3
           \<and> recorded_timestamp
               (reaction_timestamps (collect_window world_three (open_bucket bot0 100))) 100
               (uid carol) = Some 5"
    by (simp add: tracker_three recorded_timestamp_def users_fields carol_fields)
  have v: "sort_key (\<lambda>r. the (recorded_timestamp
                               (reaction_timestamps
                                  (collect_window world_three (open_bucket bot0 100))) 100 (uid r)))
             [alice, bob, carol] = [bob, carol, alice]"
    by (simp add: tracker_three recorded_timestamp_def users_fields carol_fields)
  have three:
    "r_reactors (task_allocation_loop_impl world_three bot0) = Some [alice, bob, carol]
     \<and> r_winners (task_allocation_loop_impl world_three bot0) = [bob, carol]"
    using select_winners_earliest
            [OF b world_three_fields(1) world_three_fields(2) world_three_fields(4) f]
          r v
    by (simp add: Let_def users_fields carol_fields bot0_fields numeral_2_eq_2)
  have empty:
    "r_reactors (task_allocation_loop_impl world_empty bot0) = Some []
     \<and> r_winners (task_allocation_loop_impl world_empty bot0) = []
     \<and> r_exit (task_allocation_loop_impl world_empty bot0) = Empty"
    using select_winners_earliest
            [OF b world_empty_fields(1) world_empty_fields(2) world_empty_fields(4) g]
    by (simp add: Let_def users_fields world_empty_fields)
  from b three empty r show ?thesis
    by (simp add: bot0_fields world_three_fields world_empty_fields)
qed

section \<open>Reactors without a recorded timestamp in a round\<close>

lemma world_unrec_fields:
  "announce_reply world_unrec = Inr 100" "add_reaction_reply world_unrec = None"
  "window_reactions world_unrec = [(bob, CHECKMARK, 100, 3)]"
  "fetch_reply world_unrec
   = Inr [\<lparr>r_emoji = CHECKMARK, r_users = ([taskbot, alice, bob], None)\<rparr>]"
  "clock world_unrec = (\<lambda>_. 50)"
  by (simp_all add: world_unrec_def world0_fields)

lemma world_tie_fields:
  "announce_reply world_tie = Inr 100" "add_reaction_reply world_tie = None"
  "window_reactions world_tie = [(bob, CHECKMARK, 100, 3)]"
  "fetch_reply world_tie
   = Inr [\<lparr>r_emoji = CHECKMARK, r_users = ([taskbot, alice, bob], None)\<rparr>]"
  "clock world_tie = (\<lambda>_. 3)"
  by (simp_all add: world_tie_def world_unrec_fields)

lemma world_back_fields:
  "announce_reply world_back = Inr 100" "add_reaction_reply world_back = None"
  "window_reactions world_back = [(bob, CHECKMARK, 100, 3)]"
  "fetch_reply world_back
   = Inr [\<lparr>r_emoji = CHECKMARK, r_users = ([taskbot, alice, bob], None)\<rparr>]"
  "clock world_back = (\<lambda>_. 0)"
  by (simp_all add: world_back_def world_unrec_fields)

lemma tracker_unrec:
  "reaction_timestamps (collect_window world_unrec (open_bucket bot0 100)) = [100 \<mapsto> [22 \<mapsto> 3]]"
  "reaction_timestamps (collect_window world_tie (open_bucket bot0 100)) = [100 \<mapsto> [22 \<mapsto> 3]]"
  "reaction_timestamps (collect_window world_back (open_bucket bot0 100)) = [100 \<mapsto> [22 \<mapsto> 3]]"
  by (simp_all add: collect_window_def open_bucket_def world_unrec_fields world_tie_fields
        world_back_fields on_reaction_add_def bot0_fields users_fields Let_def)

lemma find_checkmark0:
  "find (\<lambda>r. r_emoji r = CHECKMARK)
     [\<lparr>r_emoji = CHECKMARK, r_users = ([taskbot, alice, bob], None)\<rparr>]
   = Some \<lparr>r_emoji = CHECKMARK, r_users = ([taskbot, alice, bob], None)\<rparr>"
  "r_users \<lparr>r_emoji = CHECKMARK, r_users = ([taskbot, alice, bob], None)\<rparr>
   = ([taskbot, alice, bob], None)"
  by simp_all

text \<open>
  C10, as the code has it. Take a round that reaches its resolution with a non-empty
  list of reactors (the non-bot users \<open>us\<close> of the check-mark reaction), with the
  tracker \<open>rt\<close> as the window left it. Its winners are the first \<^verbatim>\<open>winners_per_task\<close>
  reactors of the stable sort of the stamped reactors, where the reactor at position
  \<open>i\<close> without a recorded timestamp is stamped with the clock reading \<open>clock w i\<close>
  taken during resolution. Provided every recorded timestamp of a reactor is strictly
  earlier than every such reading, no reactor without a recorded timestamp precedes a
  reactor with one in the winner list. In the single-winner version (\<^verbatim>\<open>task_bot.py\<close>),
  when no reactor has a recorded timestamp the winner is the first reactor of the
  enumeration.
\<close>

theorem unrecorded_reactors_last:
  "(configured b \<and> announce_channel b \<and> current_task b \<le> total_tasks b
      \<and> announce_reply w = Inr mid \<and> add_reaction_reply w = None
      \<and> fetch_reply w = Inr reactions
      \<and> find (\<lambda>r. r_emoji r = CHECKMARK) reactions = Some cr
      \<and> r_users cr = (us, None) \<and> filter (\<lambda>u. \<not> is_bot u) us \<noteq> []
    \<longrightarrow> (let R = task_allocation_loop_impl w b;
              rs = filter (\<lambda>u. \<not> is_bot u) us;
              rt = reaction_timestamps (collect_window w (open_bucket b mid))
          in r_reactors R = Some rs
           \<and> r_winners R
               = map fst (slice_to (winners_per_task b)
                            (sort_key snd (stamp_reactors rt mid (clock w) rs)))
           \<and> (\<forall>i<length rs. recorded_timestamp rt mid (uid (rs ! i)) = None
                \<longrightarrow> stamp_reactors rt mid (clock w) rs ! i = (rs ! i, clock w i))
           \<and> ((\<forall>r\<in>set rs. \<forall>t i. recorded_timestamp rt mid (uid r) = Some t \<longrightarrow> t < clock w i)
              \<longrightarrow> sorted_wrt (\<lambda>a c. \<not> (recorded_timestamp rt mid (uid a) = None
                                        \<and> recorded_timestamp rt mid (uid c) \<noteq> None))
                    (r_winners R))))
   \<and> (claimants \<noteq> [] \<and> (\<forall>r\<in>set claimants. recorded_timestamp tracker msg (uid r) = None)
      \<longrightarrow> find_first_reactor tracker msg claimants = Some (hd claimants))"
proof -
  have v2: "(let R = task_allocation_loop_impl w b;
                 rs = filter (\<lambda>u. \<not> is_bot u) us;
                 rt = reaction_timestamps (collect_window w (open_bucket b mid))
             in r_reactors R = Some rs
              \<and> r_winners R
                  = map fst (slice_to (winners_per_task b)
                               (sort_key snd (stamp_reactors rt mid (clock w) rs)))
              \<and> (\<forall>i<length rs. recorded_timestamp rt mid (uid (rs ! i)) = None
                   \<longrightarrow> stamp_reactors rt mid (clock w) rs ! i = (rs ! i, clock w i))
              \<and> ((\<forall>r\<in>set rs. \<forall>t i. recorded_timestamp rt mid (uid r) = Some t
                                      \<longrightarrow> t < clock w i)
                 \<longrightarrow> sorted_wrt (\<lambda>a c. \<not> (recorded_timestamp rt mid (uid a) = None
                                           \<and> recorded_timestamp rt mid (uid c) \<noteq> None))
                       (r_winners R)))"
    if h: "configured b" "announce_channel b" "current_task b \<le> total_tasks b"
          "announce_reply w = Inr mid" "add_reaction_reply w = None"
          "fetch_reply w = Inr reactions"
          "find (\<lambda>r. r_emoji r = CHECKMARK) reactions = Some cr"
          "r_users cr = (us, None)"
      and ne: "filter (\<lambda>u. \<not> is_bot u) us \<noteq> []"
  proof -
    define R where "R = task_allocation_loop_impl w b"
    define rs where "rs = filter (\<lambda>u. \<not> is_bot u) us"
    define rt where "rt = reaction_timestamps (collect_window w (open_bucket b mid))"
    have 0: "r_reactors R = Some rs"
      using round_selects(1)[OF h] by (simp add: R_def rs_def)
    have win: "r_winners R = select_winners rt mid (clock w) (winners_per_task b) rs"
      using round_selects(2)[OF h ne] by (simp add: R_def rs_def rt_def)
    have 1: "r_winners R
             = map fst (slice_to (winners_per_task b)
                          (sort_key snd (stamp_reactors rt mid (clock w) rs)))"
      by (simp add: win select_winners_def sorted_reactors_def)
    have 2: "\<forall>i<length rs. recorded_timestamp rt mid (uid (rs ! i)) = None
               \<longrightarrow> stamp_reactors rt mid (clock w) rs ! i = (rs ! i, clock w i)"
      by (simp add: stamp_reactors_nth)
    have 3: "sorted_wrt (\<lambda>a c. \<not> (recorded_timestamp rt mid (uid a) = None
                                 \<and> recorded_timestamp rt mid (uid c) \<noteq> None))
               (r_winners R)"
      if "\<forall>r\<in>set rs. \<forall>t i. recorded_timestamp rt mid (uid r) = Some t \<longrightarrow> t < clock w i"
      unfolding win
      using that by (rule winners_partition(2))
    have "r_reactors R = Some rs
          \<and> r_winners R
              = map fst (slice_to (winners_per_task b)
                           (sort_key snd (stamp_reactors rt mid (clock w) rs)))
          \<and> (\<forall>i<length rs. recorded_timestamp rt mid (uid (rs ! i)) = None
               \<longrightarrow> stamp_reactors rt mid (clock w) rs ! i = (rs ! i, clock w i))
          \<and> ((\<forall>r\<in>set rs. \<forall>t i. recorded_timestamp rt mid (uid r) = Some t \<longrightarrow> t < clock w i)
             \<longrightarrow> sorted_wrt (\<lambda>a c. \<not> (recorded_timestamp rt mid (uid a) = None
                                       \<and> recorded_timestamp rt mid (uid c) \<noteq> None))
                   (r_winners R))"
      using 0 1 2 3 by (intro conjI impI)
    then show ?thesis
      unfolding Let_def R_def rs_def rt_def .
  qed
  have v1: "find_first_reactor tracker msg claimants = Some (hd claimants)"
    if "claimants \<noteq> [] \<and> (\<forall>r\<in>set claimants. recorded_timestamp tracker msg (uid r) = None)"
    using that find_first_reactor_unrecorded[where reactors = claimants and rt = tracker and mid = msg]
    by simp
  have v2': "configured b \<and> announce_channel b \<and> current_task b \<le> total_tasks b
      \<and> announce_reply w = Inr mid \<and> add_reaction_reply w = None
      \<and> fetch_reply w = Inr reactions
      \<and> find (\<lambda>r. r_emoji r = CHECKMARK) reactions = Some cr
      \<and> r_users cr = (us, None) \<and> filter (\<lambda>u. \<not> is_bot u) us \<noteq> []
    \<longrightarrow> (let R = task_allocation_loop_impl w b;
              rs = filter (\<lambda>u. \<not> is_bot u) us;
              rt = reaction_timestamps (collect_window w (open_bucket b mid))
          in r_reactors R = Some rs
           \<and> r_winners R
               = map fst (slice_to (winners_per_task b)
                            (sort_key snd (stamp_reactors rt mid (clock w) rs)))
           \<and> (\<forall>i<length rs. recorded_timestamp rt mid (uid (rs ! i)) = None
                \<longrightarrow> stamp_reactors rt mid (clock w) rs ! i = (rs ! i, clock w i))
           \<and> ((\<forall>r\<in>set rs. \<forall>t i. recorded_timestamp rt mid (uid r) = Some t \<longrightarrow> t < clock w i)
              \<longrightarrow> sorted_wrt (\<lambda>a c. \<not> (recorded_timestamp rt mid (uid a) = None
                                        \<and> recorded_timestamp rt mid (uid c) \<noteq> None))
                    (r_winners R)))"
  proof
    assume a: "configured b \<and> announce_channel b \<and> current_task b \<le> total_tasks b
      \<and> announce_reply w = Inr mid \<and> add_reaction_reply w = None
      \<and> fetch_reply w = Inr reactions
      \<and> find (\<lambda>r. r_emoji r = CHECKMARK) reactions = Some cr
      \<and> r_users cr = (us, None) \<and> filter (\<lambda>u. \<not> is_bot u) us \<noteq> []"
    show "(let R = task_allocation_loop_impl w b;
              rs = filter (\<lambda>u. \<not> is_bot u) us;
              rt = reaction_timestamps (collect_window w (open_bucket b mid))
          in r_reactors R = Some rs
           \<and> r_winners R
               = map fst (slice_to (winners_per_task b)
                            (sort_key snd (stamp_reactors rt mid (clock w) rs)))
           \<and> (\<forall>i<length rs. recorded_timestamp rt mid (uid (rs ! i)) = None
                \<longrightarrow> stamp_reactors rt mid (clock w) rs ! i = (rs ! i, clock w i))
           \<and> ((\<forall>r\<in>set rs. \<forall>t i. recorded_timestamp rt mid (uid r) = Some t \<longrightarrow> t < clock w i)
              \<longrightarrow> sorted_wrt (\<lambda>a c. \<not> (recorded_timestamp rt mid (uid a) = None
                                        \<and> recorded_timestamp rt mid (uid c) \<noteq> None))
                    (r_winners R)))"
      by (rule v2) (simp_all add: a)
  qed
  have v1': "claimants \<noteq> [] \<and> (\<forall>r\<in>set claimants. recorded_timestamp tracker msg (uid r) = None)
             \<longrightarrow> find_first_reactor tracker msg claimants = Some (hd claimants)"
    using v1 by (rule impI)
  from v2' v1' show ?thesis
    by (rule conjI)
qed

theorem unrecorded_reactors_last_witness:
  "configured bot0 \<and> announce_channel bot0 \<and> current_task bot0 \<le> total_tasks bot0
   \<and> announce_reply world_unrec = Inr 100 \<and> add_reaction_reply world_unrec = None
   \<and> fetch_reply world_unrec
       = Inr [\<lparr>r_emoji = CHECKMARK, r_users = ([taskbot, alice, bob], None)\<rparr>]
   \<and> clock world_unrec 0 = 50
   \<and> recorded_timestamp
        (reaction_timestamps (collect_window world_unrec (open_bucket bot0 100))) 100 (uid alice)
       = None
   \<and> recorded_timestamp
        (reaction_timestamps (collect_window world_unrec (open_bucket bot0 100))) 100 (uid bob)
       = Some 3
   \<and> r_reactors (task_allocation_loop_impl world_unrec bot0) = Some [alice, bob]
   \<and> stamp_reactors (reaction_timestamps (collect_window world_unrec (open_bucket bot0 100)))
        100 (clock world_unrec) [alice, bob] ! 0 = (alice, 50)
   \<and> r_winners (task_allocation_loop_impl world_unrec bot0) = [bob, alice]
   \<and> sorted_wrt (\<lambda>a c. \<not> (recorded_timestamp
                              (reaction_timestamps
                                 (collect_window world_unrec (open_bucket bot0 100)))
                              100 (uid a) = None
                         \<and> recorded_timestamp
                              (reaction_timestamps
                                 (collect_window world_unrec (open_bucket bot0 100)))
                              100 (uid c) \<noteq> None))
        (r_winners (task_allocation_loop_impl world_unrec bot0))
   \<and> recorded_timestamp tracker0 101 (uid alice) = None
   \<and> recorded_timestamp tracker0 101 (uid bob) = None
   \<and> find_first_reactor tracker0 101 [alice, bob] = Some alice"
proof -
  have hb: "configured bot0 \<and> announce_channel bot0 \<and> current_task bot0 \<le> total_tasks bot0"
    by (simp add: bot0_fields)
  have hw: "announce_reply world_unrec = Inr 100 \<and> add_reaction_reply world_unrec = None
            \<and> fetch_reply world_unrec
                = Inr [\<lparr>r_emoji = CHECKMARK, r_users = ([taskbot, alice, bob], None)\<rparr>]
            \<and> clock world_unrec 0 = 50"
    by (simp add: world_unrec_fields)
  have ne: "filter (\<lambda>u. \<not> is_bot u) [taskbot, alice, bob] = [alice, bob]"
    by (simp add: users_fields)
  have r: "recorded_timestamp [100 \<mapsto> [22 \<mapsto> 3]] 100 (uid alice) = None
           \<and> recorded_timestamp [100 \<mapsto> [22 \<mapsto> 3]] 100 (uid bob) = Some 3"
    by (simp add: recorded_timestamp_def users_fields)
  have h3: "recorded_timestamp tracker0 101 (uid alice) = None
            \<and> recorded_timestamp tracker0 101 (uid bob) = None"
    by (simp add: recorded_timestamp_def tracker0_def)
  have s: "sort_key snd (stamp_reactors [100 \<mapsto> [22 \<mapsto> 3]] 100 (\<lambda>_. 50) [alice, bob])
           = [(bob, 3), (alice, 50)]"
    using r by (simp add: stamp_reactors_def)
  have a: "r_reactors (task_allocation_loop_impl world_unrec bot0) = Some [alice, bob]
           \<and> r_winners (task_allocation_loop_impl world_unrec bot0) = [bob, alice]
           \<and> stamp_reactors [100 \<mapsto> [22 \<mapsto> 3]] 100 (\<lambda>_. 50) [alice, bob] ! 0 = (alice, 50)
           \<and> sorted_wrt (\<lambda>a c. \<not> (recorded_timestamp [100 \<mapsto> [22 \<mapsto> 3]] 100 (uid a) = None
                                   \<and> recorded_timestamp [100 \<mapsto> [22 \<mapsto> 3]] 100 (uid c) \<noteq> None))
                (r_winners (task_allocation_loop_impl world_unrec bot0))"
    using unrecorded_reactors_last
            [where b = bot0 and w = world_unrec and mid = 100
               and reactions = "[\<lparr>r_emoji = CHECKMARK, r_users = ([taskbot, alice, bob], None)\<rparr>]"
               and cr = "\<lparr>r_emoji = CHECKMARK, r_users = ([taskbot, alice, bob], None)\<rparr>"
               and us = "[taskbot, alice, bob]"]
          hb hw ne r s
    by (simp add: Let_def tracker_unrec world_unrec_fields bot0_fields slice_to_def
          numeral_2_eq_2 less_Suc_eq)
  have c: "find_first_reactor tracker0 101 [alice, bob] = Some alice"
    using unrecorded_reactors_last
            [where claimants = "[alice, bob]" and tracker = tracker0 and msg = 101] h3
    by simp
  from hb hw r a h3 c show ?thesis
    by (simp add: tracker_unrec world_unrec_fields)
qed

text \<open>
  The claim as stated fails. Bob's reaction is recorded at 3 during the window;
  alice's reaction is on the announcement without a recorded timestamp, so she is
  stamped with the clock reading taken during resolution. When that reading equals
  bob's timestamp (\<open>world_tie\<close>) the stable sort keeps alice, who comes first in the
  enumeration, before bob; when the clock was set back (\<open>world_back\<close>) her stamp is
  earlier than his. In both rounds the unrecorded reactor is the first winner.
\<close>

theorem unrecorded_reactors_last_counterexample:
  "recorded_timestamp
      (reaction_timestamps (collect_window world_tie (open_bucket bot0 100))) 100 (uid bob)
     = Some 3
   \<and> recorded_timestamp
        (reaction_timestamps (collect_window world_tie (open_bucket bot0 100))) 100 (uid alice)
       = None
   \<and> clock world_tie 0 = 3
   \<and> r_reactors (task_allocation_loop_impl world_tie bot0) = Some [alice, bob]
   \<and> r_winners (task_allocation_loop_impl world_tie bot0) = [alice, bob]
   \<and> recorded_timestamp
        (reaction_timestamps (collect_window world_back (open_bucket bot0 100))) 100 (uid bob)
       = Some 3
   \<and> recorded_timestamp
        (reaction_timestamps (collect_window world_back (open_bucket bot0 100))) 100 (uid alice)
       = None
   \<and> clock world_back 0 = 0
   \<and> r_reactors (task_allocation_loop_impl world_back bot0) = Some [alice, bob]
   \<and> r_winners (task_allocation_loop_impl world_back bot0) = [alice, bob]"
proof -
  have b: "configured bot0" "announce_channel bot0" "current_task bot0 \<le> total_tasks bot0"
    by (simp_all add: bot0_fields)
  have r: "recorded_timestamp [100 \<mapsto> [22 \<mapsto> 3]] 100 (uid alice) = None
           \<and> recorded_timestamp [100 \<mapsto> [22 \<mapsto> 3]] 100 (uid bob) = Some 3"
    by (simp add: recorded_timestamp_def users_fields)
  have tie: "select_winners [100 \<mapsto> [22 \<mapsto> 3]] 100 (\<lambda>_. 3) 2 [alice, bob] = [alice, bob]"
    using r by (simp add: select_winners_def sorted_reactors_def stamp_reactors_def slice_to_def
                  numeral_2_eq_2)
  have bk: "select_winners [100 \<mapsto> [22 \<mapsto> 3]] 100 (\<lambda>_. 0) 2 [alice, bob] = [alice, bob]"
    using r by (simp add: select_winners_def sorted_reactors_def stamp_reactors_def slice_to_def
                  numeral_2_eq_2)
  have t1: "r_reactors (task_allocation_loop_impl world_tie bot0) = Some [alice, bob]"
    using round_selects(1)
            [OF b world_tie_fields(1) world_tie_fields(2) world_tie_fields(4) find_checkmark0]
    by (simp add: users_fields)
  have t2: "r_winners (task_allocation_loop_impl world_tie bot0) = [alice, bob]"
    using round_selects(2)
            [OF b world_tie_fields(1) world_tie_fields(2) world_tie_fields(4) find_checkmark0]
          tie
    by (simp add: users_fields tracker_unrec world_tie_fields bot0_fields)
  have b1: "r_reactors (task_allocation_loop_impl world_back bot0) = Some [alice, bob]"
    using round_selects(1)
            [OF b world_back_fields(1) world_back_fields(2) world_back_fields(4) find_checkmark0]
    by (simp add: users_fields)
  have b2: "r_winners (task_allocation_loop_impl world_back bot0) = [alice, bob]"
    using round_selects(2)
            [OF b world_back_fields(1) world_back_fields(2) world_back_fields(4) find_checkmark0]
          bk
    by (simp add: users_fields tracker_unrec world_back_fields bot0_fields)
  from r t1 t2 b1 b2 show ?thesis
    by (simp add: tracker_unrec world_tie_fields world_back_fields)
qed

section \<open>The task cursor\<close>

text \<open>
  C2, as the code has it. A round that observes no claim, or ends before its reactors
  are known, leaves \<^verbatim>\<open>current_task\<close> as it was. A round that observes claims and
  runs to its summary (exit \<open>Dispatched\<close>) increments \<^verbatim>\<open>current_task\<close> by exactly 1 when at least one winner was assigned, however
  many were, and leaves it unchanged when none could be assigned. No round moves the
  cursor by anything else than 0 or 1.
\<close>

theorem cursor_advance:
  "((r_reactors (task_allocation_loop_impl w b) = Some []
      \<or> r_reactors (task_allocation_loop_impl w b) = None) \<longrightarrow>
      current_task (r_bot (task_allocation_loop_impl w b)) = current_task b)
   \<and> (r_exit (task_allocation_loop_impl w b) = Empty \<longrightarrow>
        r_reactors (task_allocation_loop_impl w b) = Some []
        \<and> current_task (r_bot (task_allocation_loop_impl w b)) = current_task b)
   \<and> (r_exit (task_allocation_loop_impl w b) = Dispatched \<longrightarrow>
        (\<exists>rs. rs \<noteq> [] \<and> r_reactors (task_allocation_loop_impl w b) = Some rs)
        \<and> current_task (r_bot (task_allocation_loop_impl w b))
          = (if r_assigned (task_allocation_loop_impl w b) = [] then current_task b
             else current_task b + 1))
   \<and> (current_task (r_bot (task_allocation_loop_impl w b)) = current_task b
      \<or> current_task (r_bot (task_allocation_loop_impl w b)) = current_task b + 1)"
proof -
  define R where "R = task_allocation_loop_impl w b"
  from round_cases[OF R_def]
  consider (dispatch) mid b2 fx rs where "rs \<noteq> []" "current_task b2 = current_task b"
      "R = dispatch w b2 (current_task b) (winners_per_task b) mid fx rs"
    | (no_claims) mid b2 fx where "current_task b2 = current_task b"
      "R = no_claims w b2 (current_task b) (winners_per_task b) mid fx"
    | (early) "current_task (r_bot R) = current_task b"
      "r_exit R \<noteq> Dispatched" "r_exit R \<noteq> Empty"
    by (elim disjE exE conjE)
  then have "((r_reactors R = Some [] \<or> r_reactors R = None) \<longrightarrow>
                current_task (r_bot R) = current_task b)
     \<and> (r_exit R = Empty \<longrightarrow> r_reactors R = Some [] \<and> current_task (r_bot R) = current_task b)
     \<and> (r_exit R = Dispatched \<longrightarrow>
          (\<exists>rs. rs \<noteq> [] \<and> r_reactors R = Some rs)
          \<and> current_task (r_bot R)
            = (if r_assigned R = [] then current_task b else current_task b + 1))
     \<and> (current_task (r_bot R) = current_task b \<or> current_task (r_bot R) = current_task b + 1)"
  proof cases
    case dispatch
    from dispatch_facts[of w b2 "current_task b" "winners_per_task b" mid fx rs]
    have "r_reactors R = Some rs" and "r_exit R \<noteq> Empty"
      and "r_exit R = Dispatched \<longrightarrow>
           current_task (r_bot R)
           = (if r_assigned R = [] then current_task b2 else current_task b2 + 1)"
      and "current_task (r_bot R) = current_task b2 \<or> current_task (r_bot R) = current_task b2 + 1"
      unfolding dispatch(3)[symmetric] by simp_all
    with dispatch(1,2) show ?thesis by simp
  next
    case no_claims
    from no_claims_facts[of w b2 "current_task b" "winners_per_task b" mid fx]
    have "current_task (r_bot R) = current_task b2" and "r_reactors R = Some []"
      and "r_exit R \<noteq> Dispatched"
      unfolding no_claims(2)[symmetric] by simp_all
    with no_claims(1) show ?thesis by simp
  next
    case early
    then show ?thesis by simp
  qed
  then show ?thesis
    unfolding R_def .
qed

theorem cursor_advance_witness:
  "r_exit (task_allocation_loop_impl world_gap bot0) = Dispatched
   \<and> r_reactors (task_allocation_loop_impl world_gap bot0) = Some [alice, bob]
   \<and> r_assigned (task_allocation_loop_impl world_gap bot0) = [(11, 2)]
   \<and> current_task bot0 = 1
   \<and> current_task (r_bot (task_allocation_loop_impl world_gap bot0)) = 2
   \<and> r_exit (task_allocation_loop_impl world_empty bot0) = Empty
   \<and> r_reactors (task_allocation_loop_impl world_empty bot0) = Some []
   \<and> current_task (r_bot (task_allocation_loop_impl world_empty bot0)) = 1"
proof -
  have g: "r_exit (task_allocation_loop_impl world_gap bot0) = Dispatched
           \<and> r_reactors (task_allocation_loop_impl world_gap bot0) = Some [alice, bob]
           \<and> r_assigned (task_allocation_loop_impl world_gap bot0) = [(11, 2)]"
    by (simp add: round_gap)
  have e: "r_exit (task_allocation_loop_impl world_empty bot0) = Empty"
    by (simp add: round_empty)
  have c: "current_task bot0 = 1"
    by (simp add: bot0_def)
  from cursor_advance[of world_gap bot0] cursor_advance[of world_empty bot0] g e c
  show ?thesis
    by simp
qed

text \<open>
  The claim as stated fails: both winners of this round have left the server, so
  claims were observed and the round ran to its summary, yet the cursor stays at 1.
\<close>

theorem cursor_advance_counterexample:
  "r_reactors (task_allocation_loop_impl world_gone bot0) = Some [alice, bob]
   \<and> r_exit (task_allocation_loop_impl world_gone bot0) = Dispatched
   \<and> current_task bot0 = 1
   \<and> current_task (r_bot (task_allocation_loop_impl world_gone bot0)) = 1
   \<and> current_task (r_bot (task_allocation_loop_impl world_gone bot0)) \<noteq> current_task bot0 + 1"
  by (simp add: round_gone bot0_fields)

section \<open>Task numbers within a round\<close>

lemma process_winner_asg:
  "fst (snd (process_winner b e st i u)) = None
   \<or> fst (snd (process_winner b e st i u)) = Some (uid u, st + int i)"
  by (simp add: process_winner_def Let_def split: sum.splits prod.splits option.splits)

lemma process_winners_subseq:
  "subseq (fst (snd (process_winners b envs st i ws)))
          (map (\<lambda>(j, u). (uid u, st + int j)) (enumerate i ws))"
proof (induction ws arbitrary: i)
  case Nil
  show ?case by simp
next
  case (Cons u us)
  obtain fx a r where p: "process_winner b (envs i) st i u = (fx, a, r)"
    by (cases "process_winner b (envs i) st i u") auto
  obtain gx as rs where q: "process_winners b envs st (Suc i) us = (gx, as, rs)"
    by (cases "process_winners b envs st (Suc i) us") auto
  from process_winner_asg[of b "envs i" st i u] p
  have a: "a = None \<or> a = Some (uid u, st + int i)"
    by simp
  from Cons.IH[of "Suc i"] q
  have s: "subseq as (map (\<lambda>(j, u). (uid u, st + int j)) (enumerate (Suc i) us))"
    by simp
  show ?case
    using p q a s by (auto split: option.splits)
qed

lemma sorted_wrt_subseq:
  assumes "subseq xs ys" and "sorted_wrt R ys"
  shows "sorted_wrt R xs"
  using assms
proof (induction rule: list_emb.induct)
  case (list_emb_Nil ys)
  show ?case by simp
next
  case (list_emb_Cons xs ys y)
  then show ?case by simp
next
  case (list_emb_Cons2 x y xs ys)
  have "z \<in> set ys" if "z \<in> set xs" for z
    using list_emb_set[OF list_emb_Cons2.hyps(2) that] by auto
  with list_emb_Cons2 show ?case by auto
qed

lemma numbered_snd:
  "map snd (map (\<lambda>(j, u). (uid u, st + int j)) (enumerate i ws))
   = map (\<lambda>j. st + int j) [i..<i + length ws]"
proof (rule nth_equalityI)
  show "length (map snd (map (\<lambda>(j, u). (uid u, st + int j)) (enumerate i ws)))
        = length (map (\<lambda>j. st + int j) [i..<i + length ws])"
    by simp
next
  fix k
  assume "k < length (map snd (map (\<lambda>(j, u). (uid u, st + int j)) (enumerate i ws)))"
  then have "k < length ws"
    by simp
  then show "map snd (map (\<lambda>(j, u). (uid u, st + int j)) (enumerate i ws)) ! k
             = map (\<lambda>j. st + int j) [i..<i + length ws] ! k"
    by (simp add: nth_enumerate_eq)
qed

lemma numbers_increasing: "sorted_wrt (<) (map (\<lambda>j. st + int j) [i..<k])"
  by (simp add: sorted_wrt_map sorted_wrt_iff_nth_less)

lemma round_assigned_subseq:
  "subseq (r_assigned (task_allocation_loop_impl w b))
          (map (\<lambda>(j, u). (uid u, current_task b + int j))
               (enumerate 0 (r_winners (task_allocation_loop_impl w b))))"
proof -
  define R where "R = task_allocation_loop_impl w b"
  from round_cases[OF R_def]
  consider (dispatch) mid b2 fx rs where
      "R = dispatch w b2 (current_task b) (winners_per_task b) mid fx rs"
    | (no_claims) mid b2 fx where
      "R = no_claims w b2 (current_task b) (winners_per_task b) mid fx"
    | (other) "r_assigned R = []"
    by (elim disjE exE conjE)
  then have "subseq (r_assigned R)
               (map (\<lambda>(j, u). (uid u, current_task b + int j)) (enumerate 0 (r_winners R)))"
  proof cases
    case dispatch
    with dispatch_facts[of w b2 "current_task b" "winners_per_task b" mid fx rs]
      process_winners_subseq[of b2 "winner_envs w" "current_task b" 0
        "select_winners (reaction_timestamps b2) mid (clock w) (winners_per_task b) rs"]
    show ?thesis by simp
  next
    case no_claims
    with no_claims_facts[of w b2 "current_task b" "winners_per_task b" mid fx]
    show ?thesis by simp
  next
    case other
    then show ?thesis by simp
  qed
  then show ?thesis
    unfolding R_def .
qed

text \<open>
  C4, as the code has it. The winner at position \<open>j\<close> of the round's winner list (in
  claim order, from 0) is given task number \<open>starting_task + j\<close>: the pairs in
  \<^verbatim>\<open>winners_assigned\<close> are a subsequence, in claim order, of the winners numbered
  \<open>starting_task .. starting_task + winnerCount - 1\<close>. So the numbers assigned increase
  strictly (no repeats), and when every winner of the round is assigned they are
  exactly that contiguous range.
\<close>

theorem task_numbers_assigned:
  "subseq (r_assigned (task_allocation_loop_impl w b))
          (map (\<lambda>(j, u). (uid u, current_task b + int j))
               (enumerate 0 (r_winners (task_allocation_loop_impl w b))))
   \<and> subseq (map snd (r_assigned (task_allocation_loop_impl w b)))
             (map (\<lambda>j. current_task b + int j)
                  [0..<length (r_winners (task_allocation_loop_impl w b))])
   \<and> sorted_wrt (<) (map snd (r_assigned (task_allocation_loop_impl w b)))
   \<and> (length (r_assigned (task_allocation_loop_impl w b))
        = length (r_winners (task_allocation_loop_impl w b)) \<longrightarrow>
      map snd (r_assigned (task_allocation_loop_impl w b))
        = map (\<lambda>j. current_task b + int j)
              [0..<length (r_winners (task_allocation_loop_impl w b))])"
proof -
  define R where "R = task_allocation_loop_impl w b"
  define numbered where
    "numbered = map (\<lambda>(j, u). (uid u, current_task b + int j)) (enumerate 0 (r_winners R))"
  have 1: "subseq (r_assigned R) numbered"
    unfolding R_def numbered_def by (rule round_assigned_subseq)
  have n: "map snd numbered = map (\<lambda>j. current_task b + int j) [0..<length (r_winners R)]"
    unfolding numbered_def using numbered_snd[of "current_task b" 0 "r_winners R"] by simp
  from 1 have "subseq (map snd (r_assigned R)) (map snd numbered)"
    by (rule subseq_map)
  with n have 2: "subseq (map snd (r_assigned R))
                    (map (\<lambda>j. current_task b + int j) [0..<length (r_winners R)])"
    by simp
  from 2 numbers_increasing have 3: "sorted_wrt (<) (map snd (r_assigned R))"
    by (rule sorted_wrt_subseq)
  have 4: "map snd (r_assigned R)
           = map (\<lambda>j. current_task b + int j) [0..<length (r_winners R)]"
    if "length (r_assigned R) = length (r_winners R)"
    using 2 that by (intro subseq_same_length) simp_all
  have "subseq (r_assigned R) numbered
        \<and> subseq (map snd (r_assigned R))
                  (map (\<lambda>j. current_task b + int j) [0..<length (r_winners R)])
        \<and> sorted_wrt (<) (map snd (r_assigned R))
        \<and> (length (r_assigned R) = length (r_winners R) \<longrightarrow>
             map snd (r_assigned R)
             = map (\<lambda>j. current_task b + int j) [0..<length (r_winners R)])"
    using 1 2 3 4 by (intro conjI impI)
  then show ?thesis
    unfolding R_def numbered_def .
qed

theorem task_numbers_assigned_witness:
  "r_winners (task_allocation_loop_impl world0 bot0) = [bob, alice]
   \<and> r_assigned (task_allocation_loop_impl world0 bot0) = [(22, 1), (11, 2)]
   \<and> length (r_assigned (task_allocation_loop_impl world0 bot0))
       = length (r_winners (task_allocation_loop_impl world0 bot0))
   \<and> map snd (r_assigned (task_allocation_loop_impl world0 bot0))
       = map (\<lambda>j. current_task bot0 + int j)
             [0..<length (r_winners (task_allocation_loop_impl world0 bot0))]
   \<and> map snd (r_assigned (task_allocation_loop_impl world0 bot0)) = [1, 2]"
proof -
  have h: "r_winners (task_allocation_loop_impl world0 bot0) = [bob, alice]
           \<and> r_assigned (task_allocation_loop_impl world0 bot0) = [(22, 1), (11, 2)]"
    by (simp add: round_ok)
  then have l: "length (r_assigned (task_allocation_loop_impl world0 bot0))
                = length (r_winners (task_allocation_loop_impl world0 bot0))"
    by simp
  from task_numbers_assigned[of world0 bot0] h l show ?thesis
    by simp
qed

text \<open>
  The claim as stated fails: bob, first in claim order, has left the server, and alice
  is assigned task 2. The numbers actually assigned are \<open>[2]\<close>: neither the range
  that starts at the starting task 1 with the one winner assigned, nor the range of
  the two winners selected.
\<close>

theorem task_numbers_assigned_counterexample:
  "current_task bot0 = 1
   \<and> r_winners (task_allocation_loop_impl world_gap bot0) = [bob, alice]
   \<and> r_assigned (task_allocation_loop_impl world_gap bot0) = [(11, 2)]
   \<and> map snd (r_assigned (task_allocation_loop_impl world_gap bot0))
       \<noteq> map (\<lambda>j. current_task bot0 + int j)
             [0..<length (r_assigned (task_allocation_loop_impl world_gap bot0))]
   \<and> map snd (r_assigned (task_allocation_loop_impl world_gap bot0))
       \<noteq> map (\<lambda>j. current_task bot0 + int j)
             [0..<length (r_winners (task_allocation_loop_impl world_gap bot0))]"
  by (simp add: round_gap bot0_fields)

section \<open>The ledger write of a winner\<close>

lemma try_assign_granted:
  assumes "in_guild_members e" and "get_or_create_role e = Inr ()" and "manage_roles e"
      and "role_position e < bot_top_position e" and "add_roles_reply e = None"
  shows "\<exists>tail. fst (try_assign b e u n) =
           [Add_roles (uid u) n, Schedule_role_removal (uid u) (role_removal_hours b)]
           @ send_log b (Role_given_log (uid u) n)
           @ fst (dm_winner b e u n)
           @ fst (write_to_sheet b (sheet_replies e) n (uname u)) @ tail"
proof (cases "role_in_member_roles e")
  case True
  with assms show ?thesis
    by (simp add: try_assign_def write_to_sheet_returns Let_def)
next
  case False
  with assms show ?thesis
    by (simp add: try_assign_def write_to_sheet_returns Let_def)
qed

lemma process_winner_found:
  assumes "get_member_safely e = Inr True"
  shows "\<exists>tail. fst (process_winner b e st i u) = fst (try_assign b e u (st + int i)) @ tail"
proof -
  obtain fx a r where t: "try_assign b e u (st + int i) = (fx, a, r)"
    by (cases "try_assign b e u (st + int i)") auto
  with assms show ?thesis
    by (simp add: process_winner_def Let_def split: option.splits)
qed

text \<open>
  C3, as the code has it. For a winner who is found in the server and whose role
  grant succeeds (the role exists or is created, the bot may manage roles and ranks
  above the role, \<^verbatim>\<open>add_roles\<close> returns), the ledger write runs with that winner's task
  number and name right after the notification step, whatever the direct message and
  its fallback answer (\<open>d\<close> and \<open>f\<close>).
\<close>

theorem ledger_write_after_grant:
  assumes "get_member_safely e = Inr True" and "in_guild_members e"
      and "get_or_create_role e = Inr ()" and "manage_roles e"
      and "role_position e < bot_top_position e" and "add_roles_reply e = None"
  shows "\<exists>tail.
           fst (process_winner b (e\<lparr>dm_send_reply := d, fallback_send_reply := f\<rparr>) st i u) =
             [Add_roles (uid u) (st + int i),
              Schedule_role_removal (uid u) (role_removal_hours b)]
             @ send_log b (Role_given_log (uid u) (st + int i))
             @ fst (dm_winner b (e\<lparr>dm_send_reply := d, fallback_send_reply := f\<rparr>) u (st + int i))
             @ fst (write_to_sheet b (sheet_replies e) (st + int i) (uname u)) @ tail"
proof -
  let ?e = "e\<lparr>dm_send_reply := d, fallback_send_reply := f\<rparr>"
  have "get_member_safely ?e = get_member_safely e"
    by (simp add: get_member_safely_def)
  with assms(1) have m: "get_member_safely ?e = Inr True"
    by simp
  have "get_or_create_role ?e = get_or_create_role e"
    by (simp add: get_or_create_role_def)
  with assms(2-6)
  have g: "in_guild_members ?e" "get_or_create_role ?e = Inr ()" "manage_roles ?e"
    "role_position ?e < bot_top_position ?e" "add_roles_reply ?e = None"
    by simp_all
  from try_assign_granted[OF g, where b = b and u = u and n = "st + int i"] obtain t1 where
    t1: "fst (try_assign b ?e u (st + int i)) =
           [Add_roles (uid u) (st + int i),
            Schedule_role_removal (uid u) (role_removal_hours b)]
           @ send_log b (Role_given_log (uid u) (st + int i))
           @ fst (dm_winner b ?e u (st + int i))
           @ fst (write_to_sheet b (sheet_replies ?e) (st + int i) (uname u)) @ t1"
    by auto
  from process_winner_found[OF m, where b = b and st = st and i = i and u = u] obtain t2 where
    t2: "fst (process_winner b ?e st i u) = fst (try_assign b ?e u (st + int i)) @ t2"
    by auto
  have "fst (process_winner b ?e st i u) =
          [Add_roles (uid u) (st + int i),
           Schedule_role_removal (uid u) (role_removal_hours b)]
          @ send_log b (Role_given_log (uid u) (st + int i))
          @ fst (dm_winner b ?e u (st + int i))
          @ fst (write_to_sheet b (sheet_replies e) (st + int i) (uname u)) @ (t1 @ t2)"
    using t1 t2 by simp
  then show ?thesis ..
qed

theorem ledger_write_after_grant_witness:
  "get_member_safely env_ok = Inr True \<and> in_guild_members env_ok
   \<and> get_or_create_role env_ok = Inr () \<and> manage_roles env_ok
   \<and> role_position env_ok < bot_top_position env_ok \<and> add_roles_reply env_ok = None
   \<and> (\<exists>tail.
         fst (process_winner bot0
                (env_ok\<lparr>dm_send_reply := Some Forbidden, fallback_send_reply := None\<rparr>) 1 0 alice) =
           [Add_roles (uid alice) (1 + int 0),
            Schedule_role_removal (uid alice) (role_removal_hours bot0)]
           @ send_log bot0 (Role_given_log (uid alice) (1 + int 0))
           @ fst (dm_winner bot0
                    (env_ok\<lparr>dm_send_reply := Some Forbidden, fallback_send_reply := None\<rparr>)
                    alice (1 + int 0))
           @ fst (write_to_sheet bot0 (sheet_replies env_ok) (1 + int 0) (uname alice)) @ tail)
   \<and> cell_writes (fst (write_to_sheet bot0 (sheet_replies env_ok) (1 + int 0) (uname alice)))
       = [(2, 4, ''alice'')]"
proof -
  have h: "get_member_safely env_ok = Inr True" "in_guild_members env_ok"
    "get_or_create_role env_ok = Inr ()" "manage_roles env_ok"
    "role_position env_ok < bot_top_position env_ok" "add_roles_reply env_ok = None"
    by (simp_all add: get_member_safely_def get_or_create_role_def env_ok_fields)
  have c: "cell_writes (fst (write_to_sheet bot0 (sheet_replies env_ok) (1 + int 0) (uname alice)))
           = [(2, 4, ''alice'')]"
    by (simp add: write_to_sheet_ok[where sid = "''abc-123_X''" and rows = 10]
          bot0_fields sheet_id0 env_ok_fields users_fields)
  from ledger_write_after_grant
         [OF h, where b = bot0 and d = "Some Forbidden" and f = None and st = 1 and i = 0
            and u = alice] h c
  show ?thesis
    by simp
qed

text \<open>
  The claim as stated fails: in this round bob and alice are the winners, the bot is
  forbidden to grant the role, and no cell is written for either of them, although the
  sheet is configured and a write for bob's task would have succeeded.
\<close>

theorem ledger_write_after_grant_counterexample:
  "r_winners (task_allocation_loop_impl world_forbidden bot0) = [bob, alice]
   \<and> add_roles_reply (winner_envs world_forbidden 0) = Some Forbidden
   \<and> r_effects (task_allocation_loop_impl world_forbidden bot0)
       = [Post (Task_available 1 2), Add_reaction, Post Role_ping,
          Send_log (Task_created_log 1 2), Sleep 5,
          Post Lacks_permission, Post Lacks_permission, Post Assignment_failed]
   \<and> cell_writes (r_effects (task_allocation_loop_impl world_forbidden bot0)) = []
   \<and> cell_writes (fst (write_to_sheet bot0 (sheet_replies (winner_envs world_forbidden 0))
                          1 ''bob''))
       = [(2, 4, ''bob'')]"
proof -
  have e: "winner_envs world_forbidden 0 = env_forbidden"
    by (simp add: world_forbidden_def)
  have a: "add_roles_reply env_forbidden = Some Forbidden"
    by (simp add: env_forbidden_def)
  have s: "sheet_replies env_forbidden 0 = Sheet_rows 10 None"
    by (simp add: env_forbidden_def env_ok_fields)
  have c: "cell_writes (fst (write_to_sheet bot0 (sheet_replies env_forbidden) 1 ''bob''))
           = [(2, 4, ''bob'')]"
    using write_to_sheet_ok[where b = bot0 and sid = "''abc-123_X''" and rows = 10
            and replies = "sheet_replies env_forbidden" and n = 1 and name = "''bob''"] s
    by (simp add: bot0_fields sheet_id0)
  show ?thesis
    by (simp add: round_forbidden e a c)
qed

section \<open>The fallback of the direct message\<close>

lemma fallback_sends_append:
  "fallback_sends (xs @ ys) = fallback_sends xs @ fallback_sends ys"
  by (induction xs rule: fallback_sends.induct) auto

lemma fallback_sends_send_log: "fallback_sends (send_log b m) = []"
  by (simp add: send_log_def)

lemma fallback_posts_append:
  "fallback_posts (xs @ ys) = fallback_posts xs @ fallback_posts ys"
  by (induction xs rule: fallback_posts.induct) auto

lemma fallback_posts_send_log: "fallback_posts (send_log b m) = []"
  by (simp add: send_log_def)

lemma embed_contents:
  "embed_task_numbers (dm_embed b n) = [n]"
  "embed_task_numbers (channel_embed b u n) = [n]"
  "embed_sheet_links (dm_embed b n) = [sheet_url b]"
  "embed_sheet_links (channel_embed b u n) = [sheet_url b]"
  "e_title (channel_embed b u n) = Inaccessible_title"
  "e_description (channel_embed b u n) = Inaccessible_text (uid u)"
  by (simp_all add: embed_task_numbers_def embed_sheet_links_def dm_embed_def channel_embed_def)

lemma dm_winner_sent:
  assumes "dm_send_reply e = None"
  shows "snd (dm_winner b e u n) \<and> fallback_sends (fst (dm_winner b e u n)) = []
         \<and> fallback_posts (fst (dm_winner b e u n)) = []"
  using assms by (simp add: dm_winner_def fallback_sends_send_log fallback_posts_send_log)

lemma dm_winner_unreachable:
  assumes "dm_send_reply e = Some x" and "is_HTTPException x" and "announce_channel b"
      and "fallback_send_reply e = None"
  shows "\<not> snd (dm_winner b e u n)
         \<and> Direct_message_failed (uid u) (dm_embed b n) x \<in> set (fst (dm_winner b e u n))
         \<and> fallback_sends (fst (dm_winner b e u n)) = [channel_embed b u n]
         \<and> fallback_posts (fst (dm_winner b e u n)) = [channel_embed b u n]"
  using assms
  by (simp add: dm_winner_def fallback_sends_send_log fallback_sends_append
        fallback_posts_send_log fallback_posts_append Let_def)

lemma dm_winner_fallback_lost:
  assumes "dm_send_reply e = Some x" and "is_HTTPException x" and "announce_channel b"
      and "fallback_send_reply e = Some y"
  shows "\<not> snd (dm_winner b e u n)
         \<and> fallback_sends (fst (dm_winner b e u n)) = [channel_embed b u n]
         \<and> fallback_posts (fst (dm_winner b e u n)) = []
         \<and> Logger (Dm_error y) \<in> set (fst (dm_winner b e u n))"
  using assms
  by (simp add: dm_winner_def fallback_sends_append fallback_posts_append Let_def)

lemma dm_winner_other:
  assumes "dm_send_reply e = Some x" and "\<not> is_HTTPException x"
  shows "\<not> snd (dm_winner b e u n) \<and> fallback_sends (fst (dm_winner b e u n)) = []
         \<and> fallback_posts (fst (dm_winner b e u n)) = []
         \<and> Logger (Dm_error x) \<in> set (fst (dm_winner b e u n))"
  using assms by (simp add: dm_winner_def)

lemma dm_winner_no_channel:
  assumes "dm_send_reply e = Some x" and "is_HTTPException x" and "\<not> announce_channel b"
  shows "\<not> snd (dm_winner b e u n) \<and> fallback_sends (fst (dm_winner b e u n)) = []
         \<and> fallback_posts (fst (dm_winner b e u n)) = []"
  using assms
  by (simp add: dm_winner_def fallback_sends_send_log fallback_sends_append
        fallback_posts_send_log fallback_posts_append Let_def)

text \<open>
  C9, as the code has it. When the direct message is delivered, \<^verbatim>\<open>dm_winner\<close> returns
  \<^verbatim>\<open>True\<close> and attempts no fallback post. When it fails with \<^verbatim>\<open>discord.Forbidden\<close> or
  another \<^verbatim>\<open>discord.HTTPException\<close> and the announcement channel is set, \<^verbatim>\<open>dm_winner\<close>
  returns \<^verbatim>\<open>False\<close> and makes exactly one attempt to post the fallback to the
  announcement channel; its embed names the same task number and the same sheet link
  as the embed of the failed direct message, under the inaccessible-DMs title and
  notice. When that send succeeds, exactly one fallback post is delivered; when it
  raises, none is delivered and the error is logged. When the direct message fails with
  any other exception, \<^verbatim>\<open>dm_winner\<close> logs the error and returns \<^verbatim>\<open>False\<close> without
  attempting a fallback post; when no announcement channel is set, none is attempted
  either.
\<close>

theorem dm_fallback_post:
  "(dm_send_reply e = None \<longrightarrow>
      snd (dm_winner b e u n) \<and> fallback_sends (fst (dm_winner b e u n)) = []
      \<and> fallback_posts (fst (dm_winner b e u n)) = [])
   \<and> (dm_send_reply e = Some x \<and> is_HTTPException x \<and> announce_channel b \<longrightarrow>
        \<not> snd (dm_winner b e u n)
        \<and> Direct_message_failed (uid u) (dm_embed b n) x \<in> set (fst (dm_winner b e u n))
        \<and> fallback_sends (fst (dm_winner b e u n)) = [channel_embed b u n]
        \<and> embed_task_numbers (channel_embed b u n) = embed_task_numbers (dm_embed b n)
        \<and> embed_task_numbers (channel_embed b u n) = [n]
        \<and> embed_sheet_links (channel_embed b u n) = embed_sheet_links (dm_embed b n)
        \<and> embed_sheet_links (channel_embed b u n) = [sheet_url b]
        \<and> e_title (channel_embed b u n) = Inaccessible_title
        \<and> e_description (channel_embed b u n) = Inaccessible_text (uid u)
        \<and> (fallback_send_reply e = None \<longrightarrow>
             fallback_posts (fst (dm_winner b e u n)) = [channel_embed b u n])
        \<and> (fallback_send_reply e = Some y \<longrightarrow>
             fallback_posts (fst (dm_winner b e u n)) = []
             \<and> Logger (Dm_error y) \<in> set (fst (dm_winner b e u n))))
   \<and> (dm_send_reply e = Some x \<and> \<not> is_HTTPException x \<longrightarrow>
        \<not> snd (dm_winner b e u n) \<and> fallback_sends (fst (dm_winner b e u n)) = []
        \<and> fallback_posts (fst (dm_winner b e u n)) = []
        \<and> Logger (Dm_error x) \<in> set (fst (dm_winner b e u n)))
   \<and> (dm_send_reply e = Some x \<and> is_HTTPException x \<and> \<not> announce_channel b \<longrightarrow>
        \<not> snd (dm_winner b e u n) \<and> fallback_sends (fst (dm_winner b e u n)) = []
        \<and> fallback_posts (fst (dm_winner b e u n)) = [])"
proof -
  have c1: "dm_send_reply e = None \<longrightarrow>
              snd (dm_winner b e u n) \<and> fallback_sends (fst (dm_winner b e u n)) = []
              \<and> fallback_posts (fst (dm_winner b e u n)) = []"
    using dm_winner_sent[where e = e and b = b and u = u and n = n] by simp
  have c2: "dm_send_reply e = Some x \<and> is_HTTPException x \<and> announce_channel b \<longrightarrow>
        \<not> snd (dm_winner b e u n)
        \<and> Direct_message_failed (uid u) (dm_embed b n) x \<in> set (fst (dm_winner b e u n))
        \<and> fallback_sends (fst (dm_winner b e u n)) = [channel_embed b u n]
        \<and> embed_task_numbers (channel_embed b u n) = embed_task_numbers (dm_embed b n)
        \<and> embed_task_numbers (channel_embed b u n) = [n]
        \<and> embed_sheet_links (channel_embed b u n) = embed_sheet_links (dm_embed b n)
        \<and> embed_sheet_links (channel_embed b u n) = [sheet_url b]
        \<and> e_title (channel_embed b u n) = Inaccessible_title
        \<and> e_description (channel_embed b u n) = Inaccessible_text (uid u)
        \<and> (fallback_send_reply e = None \<longrightarrow>
             fallback_posts (fst (dm_winner b e u n)) = [channel_embed b u n])
        \<and> (fallback_send_reply e = Some y \<longrightarrow>
             fallback_posts (fst (dm_winner b e u n)) = []
             \<and> Logger (Dm_error y) \<in> set (fst (dm_winner b e u n)))"
  proof
    assume h: "dm_send_reply e = Some x \<and> is_HTTPException x \<and> announce_channel b"
    have s: "\<not> snd (dm_winner b e u n)
             \<and> Direct_message_failed (uid u) (dm_embed b n) x \<in> set (fst (dm_winner b e u n))
             \<and> fallback_sends (fst (dm_winner b e u n)) = [channel_embed b u n]"
    proof (cases "fallback_send_reply e")
      case None
      with h dm_winner_unreachable[where e = e and x = x and b = b and u = u and n = n]
      show ?thesis by simp
    next
      case (Some z)
      with h show ?thesis
        by (simp add: dm_winner_def fallback_sends_append Let_def)
    qed
    have p: "fallback_posts (fst (dm_winner b e u n)) = [channel_embed b u n]"
      if "fallback_send_reply e = None"
      using h that dm_winner_unreachable[where e = e and x = x and b = b and u = u and n = n]
      by simp
    have l: "fallback_posts (fst (dm_winner b e u n)) = []
             \<and> Logger (Dm_error y) \<in> set (fst (dm_winner b e u n))"
      if "fallback_send_reply e = Some y"
      using h that
        dm_winner_fallback_lost[where e = e and x = x and y = y and b = b and u = u and n = n]
      by simp
    show "\<not> snd (dm_winner b e u n)
        \<and> Direct_message_failed (uid u) (dm_embed b n) x \<in> set (fst (dm_winner b e u n))
        \<and> fallback_sends (fst (dm_winner b e u n)) = [channel_embed b u n]
        \<and> embed_task_numbers (channel_embed b u n) = embed_task_numbers (dm_embed b n)
        \<and> embed_task_numbers (channel_embed b u n) = [n]
        \<and> embed_sheet_links (channel_embed b u n) = embed_sheet_links (dm_embed b n)
        \<and> embed_sheet_links (channel_embed b u n) = [sheet_url b]
        \<and> e_title (channel_embed b u n) = Inaccessible_title
        \<and> e_description (channel_embed b u n) = Inaccessible_text (uid u)
        \<and> (fallback_send_reply e = None \<longrightarrow>
             fallback_posts (fst (dm_winner b e u n)) = [channel_embed b u n])
        \<and> (fallback_send_reply e = Some y \<longrightarrow>
             fallback_posts (fst (dm_winner b e u n)) = []
             \<and> Logger (Dm_error y) \<in> set (fst (dm_winner b e u n)))"
      using s p l by (simp add: embed_contents)
  qed
  have c3: "dm_send_reply e = Some x \<and> \<not> is_HTTPException x \<longrightarrow>
        \<not> snd (dm_winner b e u n) \<and> fallback_sends (fst (dm_winner b e u n)) = []
        \<and> fallback_posts (fst (dm_winner b e u n)) = []
        \<and> Logger (Dm_error x) \<in> set (fst (dm_winner b e u n))"
    using dm_winner_other[where e = e and x = x and b = b and u = u and n = n] by simp
  have c4: "dm_send_reply e = Some x \<and> is_HTTPException x \<and> \<not> announce_channel b \<longrightarrow>
        \<not> snd (dm_winner b e u n) \<and> fallback_sends (fst (dm_winner b e u n)) = []
        \<and> fallback_posts (fst (dm_winner b e u n)) = []"
    using dm_winner_no_channel[where e = e and x = x and b = b and u = u and n = n] by simp
  from c1 c2 c3 c4 show ?thesis
    by (intro conjI)
qed

theorem dm_fallback_post_witness:
  "dm_send_reply env_dm_closed = Some Forbidden \<and> is_HTTPException Forbidden
   \<and> announce_channel bot0 \<and> fallback_send_reply env_dm_closed = None
   \<and> \<not> snd (dm_winner bot0 env_dm_closed alice 1)
   \<and> fallback_sends (fst (dm_winner bot0 env_dm_closed alice 1)) = [channel_embed bot0 alice 1]
   \<and> fallback_posts (fst (dm_winner bot0 env_dm_closed alice 1)) = [channel_embed bot0 alice 1]
   \<and> embed_task_numbers (channel_embed bot0 alice 1) = [1]
   \<and> embed_sheet_links (channel_embed bot0 alice 1) = [sheet_url bot0]
   \<and> dm_send_reply env_dm_lost = Some Forbidden
   \<and> fallback_send_reply env_dm_lost = Some HTTPException
   \<and> fallback_sends (fst (dm_winner bot0 env_dm_lost alice 1)) = [channel_embed bot0 alice 1]
   \<and> fallback_posts (fst (dm_winner bot0 env_dm_lost alice 1)) = []
   \<and> Logger (Dm_error HTTPException) \<in> set (fst (dm_winner bot0 env_dm_lost alice 1))
   \<and> dm_send_reply env_ok = None
   \<and> snd (dm_winner bot0 env_ok alice 1)
   \<and> fallback_sends (fst (dm_winner bot0 env_ok alice 1)) = []
   \<and> dm_send_reply env_dm_error = Some Other_exception \<and> \<not> is_HTTPException Other_exception
   \<and> \<not> snd (dm_winner bot0 env_dm_error alice 1)
   \<and> fallback_sends (fst (dm_winner bot0 env_dm_error alice 1)) = []
   \<and> Logger (Dm_error Other_exception) \<in> set (fst (dm_winner bot0 env_dm_error alice 1))"
proof -
  have h: "dm_send_reply env_dm_closed = Some Forbidden \<and> is_HTTPException Forbidden
           \<and> announce_channel bot0 \<and> fallback_send_reply env_dm_closed = None"
    by (simp add: env_dm_closed_def env_ok_fields bot0_fields)
  have k: "dm_send_reply env_dm_lost = Some Forbidden
           \<and> fallback_send_reply env_dm_lost = Some HTTPException"
    by (simp add: env_dm_lost_def env_dm_closed_def)
  have o: "dm_send_reply env_ok = None"
    by (simp add: env_ok_fields)
  have x: "dm_send_reply env_dm_error = Some Other_exception \<and> \<not> is_HTTPException Other_exception"
    by (simp add: env_dm_error_def)
  have 1: "\<not> snd (dm_winner bot0 env_dm_closed alice 1)
     \<and> fallback_sends (fst (dm_winner bot0 env_dm_closed alice 1)) = [channel_embed bot0 alice 1]
     \<and> fallback_posts (fst (dm_winner bot0 env_dm_closed alice 1)) = [channel_embed bot0 alice 1]"
    using dm_fallback_post[where e = env_dm_closed and b = bot0 and u = alice and n = 1
                             and x = Forbidden] h
    by simp
  have 2: "fallback_sends (fst (dm_winner bot0 env_dm_lost alice 1)) = [channel_embed bot0 alice 1]
     \<and> fallback_posts (fst (dm_winner bot0 env_dm_lost alice 1)) = []
     \<and> Logger (Dm_error HTTPException) \<in> set (fst (dm_winner bot0 env_dm_lost alice 1))"
    using dm_fallback_post[where e = env_dm_lost and b = bot0 and u = alice and n = 1
                             and x = Forbidden and y = HTTPException] h k
    by simp
  have 3: "snd (dm_winner bot0 env_ok alice 1)
           \<and> fallback_sends (fst (dm_winner bot0 env_ok alice 1)) = []"
    using dm_fallback_post[where e = env_ok and b = bot0 and u = alice and n = 1] o
    by simp
  have 4: "\<not> snd (dm_winner bot0 env_dm_error alice 1)
     \<and> fallback_sends (fst (dm_winner bot0 env_dm_error alice 1)) = []
     \<and> Logger (Dm_error Other_exception) \<in> set (fst (dm_winner bot0 env_dm_error alice 1))"
    using dm_fallback_post[where e = env_dm_error and b = bot0 and u = alice and n = 1
                             and x = Other_exception] x
    by simp
  from h k o x 1 2 3 4 show ?thesis
    by (simp add: embed_contents)
qed

text \<open>
  The claim as stated fails. The direct message to alice fails with an exception that
  is not a \<^verbatim>\<open>discord.HTTPException\<close>: \<^verbatim>\<open>dm_winner\<close> logs the error and returns \<^verbatim>\<open>False\<close>
  without attempting any fallback post. And when her direct messages are closed and
  the announcement channel refuses the fallback post as well, the one attempt is not
  delivered: no fallback post is in the channel.
\<close>

theorem dm_fallback_post_counterexample:
  "dm_send_reply env_dm_error = Some Other_exception
   \<and> announce_channel bot0
   \<and> dm_winner bot0 env_dm_error alice 1
       = ([Direct_message_failed 11 (dm_embed bot0 1) Other_exception,
           Logger (Dm_error Other_exception)], False)
   \<and> fallback_sends (fst (dm_winner bot0 env_dm_error alice 1)) = []
   \<and> fallback_posts (fst (dm_winner bot0 env_dm_error alice 1)) = []
   \<and> dm_send_reply env_dm_lost = Some Forbidden
   \<and> dm_winner bot0 env_dm_lost alice 1
       = ([Direct_message_failed 11 (dm_embed bot0 1) Forbidden,
           Logger (Dm_refused 11 Forbidden),
           Post_failed (Dm_fallback (channel_embed bot0 alice 1)) HTTPException,
           Logger (Dm_error HTTPException)], False)
   \<and> fallback_posts (fst (dm_winner bot0 env_dm_lost alice 1)) = []"
  by (simp add: dm_winner_def env_dm_error_def env_dm_lost_def env_dm_closed_def
        bot0_fields users_fields)

section \<open>Discarding the claim bucket\<close>

lemma discard_gone: "reaction_timestamps (discard b mid) mid = None"
  by (simp add: discard_def)

lemma dispatch_discards:
  assumes "r_exit (dispatch w b st n mid fx rs) = Dispatched"
  shows "reaction_timestamps (r_bot (dispatch w b st n mid fx rs)) mid = None"
proof -
  obtain gx as r where
    q: "process_winners b (winner_envs w) st 0
          (select_winners (reaction_timestamps b) mid (clock w) n rs) = (gx, as, r)"
    by (cases "process_winners b (winner_envs w) st 0
                 (select_winners (reaction_timestamps b) mid (clock w) n rs)") auto
  show ?thesis
    using q assms
    by (simp add: dispatch_def caught_def discard_gone Let_def split: option.splits)
qed

lemma no_claims_discards:
  assumes "r_exit (no_claims w b st n mid fx) = Empty"
  shows "reaction_timestamps (r_bot (no_claims w b st n mid fx)) mid = None"
  using assms by (simp add: no_claims_def caught_def discard_gone split: option.splits)

lemma resolve_discards:
  assumes "r_exit (resolve w b st n mid fx) = Aborted
           \<or> r_exit (resolve w b st n mid fx) = Dispatched
           \<or> r_exit (resolve w b st n mid fx) = Empty"
  shows "reaction_timestamps (r_bot (resolve w b st n mid fx)) mid = None"
proof -
  have nd: "r_exit (no_claims w b st n mid fx) \<noteq> Dispatched
            \<and> r_exit (no_claims w b st n mid fx) \<noteq> Aborted"
    by (simp add: no_claims_def caught_def split: option.splits)
  have da: "r_exit (dispatch w b st n mid fx rs) \<noteq> Empty
            \<and> r_exit (dispatch w b st n mid fx rs) \<noteq> Aborted" for rs
  proof -
    obtain gx as r where
      q: "process_winners b (winner_envs w) st 0
            (select_winners (reaction_timestamps b) mid (clock w) n rs) = (gx, as, r)"
      by (cases "process_winners b (winner_envs w) st 0
                   (select_winners (reaction_timestamps b) mid (clock w) n rs)") auto
    show ?thesis
      using q by (simp add: dispatch_def caught_def Let_def split: option.splits)
  qed
  show ?thesis
  proof (cases "fetch_reply w")
    case (Inl x)
    with assms show ?thesis
      by (simp add: resolve_def caught_def discard_gone split: if_splits)
  next
    case fetched: (Inr reactions)
    show ?thesis
    proof (cases "find (\<lambda>r. r_emoji r = CHECKMARK) reactions")
      case None
      with fetched assms show ?thesis
        by (simp add: resolve_def)
    next
      case found: (Some checkmark_reaction)
      obtain us stop where users: "r_users checkmark_reaction = (us, stop)"
        by (cases "r_users checkmark_reaction") auto
      show ?thesis
      proof (cases stop)
        case (Some x)
        with fetched found users assms show ?thesis
          by (simp add: resolve_def caught_def)
      next
        case None
        show ?thesis
        proof (cases "filter (\<lambda>u. \<not> is_bot u) us = []")
          case True
          with fetched found users None
          have "resolve w b st n mid fx = no_claims w b st n mid fx"
            by (simp add: resolve_def)
          with assms nd no_claims_discards[where w = w and b = b and st = st and n = n
                                           and mid = mid and fx = fx]
          show ?thesis by simp
        next
          case False
          with fetched found users None
          have "resolve w b st n mid fx
                = dispatch w b st n mid fx (filter (\<lambda>u. \<not> is_bot u) us)"
            by (simp add: resolve_def)
          with assms da[of "filter (\<lambda>u. \<not> is_bot u) us"]
            dispatch_discards[where w = w and b = b and st = st and n = n and mid = mid
                              and fx = fx and rs = "filter (\<lambda>u. \<not> is_bot u) us"]
          show ?thesis by simp
        qed
      qed
    qed
  qed
qed

text \<open>
  On the exits that the code cleans up (the fetch failed with a Discord error, the
  round dispatched its winners, or nobody claimed), the bucket of the announcement is
  gone afterwards.
\<close>

lemma bucket_discarded_on_cleaned_exits:
  assumes "announce_reply w = Inr mid"
      and "r_exit (task_allocation_loop_impl w b) = Aborted
           \<or> r_exit (task_allocation_loop_impl w b) = Dispatched
           \<or> r_exit (task_allocation_loop_impl w b) = Empty"
  shows "reaction_timestamps (r_bot (task_allocation_loop_impl w b)) mid = None"
  using assms resolve_discards[where w = w and st = "current_task b"
                 and n = "winners_per_task b" and mid = mid]
  by (simp add: task_allocation_loop_impl_def open_round_def caught_def Let_def
        split: option.splits if_splits)

text \<open>
  C5 fails on the code. When the announcement carries no check-mark reaction at
  resolution time (here: all reactions were cleared during the window), the round
  returns at \<^verbatim>\<open>if not checkmark_reaction: return\<close> without the cleanup: the bucket of
  message 100, with the claims recorded for bob and alice, is still in
  \<^verbatim>\<open>reaction_timestamps\<close> after the round.
\<close>

theorem bucket_kept_without_checkmark:
  "announce_reply world_cleared = Inr 100
   \<and> r_exit (task_allocation_loop_impl world_cleared bot0) = No_checkmark
   \<and> reaction_timestamps (r_bot (task_allocation_loop_impl world_cleared bot0)) 100
       = Some [22 \<mapsto> 3, 11 \<mapsto> 7]
   \<and> recorded_timestamp
        (reaction_timestamps (r_bot (task_allocation_loop_impl world_cleared bot0))) 100 22
       = Some 3"
proof -
  have a: "announce_reply world_cleared = Inr 100"
    by (simp add: world_cleared_def world0_fields)
  show ?thesis
    by (simp add: a round_cleared recorded_timestamp_def)
qed

theorem bucket_kept_without_checkmark_witness:
  "reaction_timestamps (r_bot (task_allocation_loop_impl world_cleared bot0)) 100 \<noteq> None"
  using bucket_kept_without_checkmark by simp

end
